theory Spec2Isabelle
  imports Complex_Main
begin

section \<open>Data model (types.ts)\<close>

text \<open>
  JavaScript numbers are modelled as reals: the arithmetic of the source is read as exact
  arithmetic, without rounding, infinities or NaN. Where the source divides, the divisor
  is named in the theorem that depends on it.
\<close>

record CarState =
  xPos :: real
  yPos :: real
  xSpeed :: real
  ySpeed :: real
  speed :: real
  driftAngle :: real
  angle :: real
  angularVelocity :: real
  isTurning :: bool
  isReversing :: bool
  width :: real
  height :: real

text \<open>The physics coefficients of \<open>GameParams\<close>; its audio and UI settings are not read by
  the simulation and are left out.\<close>

record GameParams =
  maxSpeed :: real
  maxReverseSpeed :: real
  accelerationFactor :: real
  decelerationFactor :: real
  driftFactor :: real
  turnFactor :: real
  oversteer :: real
  zoom :: real
  carScale :: real
  eBrakeDecay :: real

record InputState =
  up :: bool
  down :: bool
  left :: bool
  right :: bool
  brake :: bool
  eBrake :: bool

section \<open>Drift scoring (utils/ClippingSystem: class DriftScoring)\<close>

record DriftState =
  isDrifting :: bool
  currentScore :: real
  totalScore :: real
  multiplier :: real
  combo :: int
  duration :: real
  isInClippingZone :: bool

record DriftScoringConfig =
  minDriftAngle :: real
  minSpeed :: real
  basePointsPerSecond :: real
  comboDecayTime :: real
  comboBonus :: real

text \<open>\<open>Partial<DriftScoringConfig>\<close>: every field may be absent.\<close>

record PartialDriftScoringConfig =
  p_minDriftAngle :: "real option"
  p_minSpeed :: "real option"
  p_basePointsPerSecond :: "real option"
  p_comboDecayTime :: "real option"
  p_comboBonus :: "real option"

text \<open>The object of class \<open>DriftScoring\<close>: the fields of its \<open>state\<close> object, then its
  private fields \<open>config\<close>, \<open>comboTimer\<close> and \<open>lastDriftDir\<close>.\<close>

record DriftScoring = DriftState +
  config :: DriftScoringConfig
  comboTimer :: real
  lastDriftDir :: real

text \<open>\<open>v || d\<close> on an optional number: an absent field and the falsy number 0 give the
  default.\<close>

definition or_default :: "real option \<Rightarrow> real \<Rightarrow> real" where
  "or_default v d = (case v of None \<Rightarrow> d | Some x \<Rightarrow> if x = 0 then d else x)"

definition empty_partial :: PartialDriftScoringConfig where
  "empty_partial = \<lparr>p_minDriftAngle = None, p_minSpeed = None, p_basePointsPerSecond = None,
     p_comboDecayTime = None, p_comboBonus = None\<rparr>"

definition new_DriftScoring :: "PartialDriftScoringConfig \<Rightarrow> DriftScoring" where
  "new_DriftScoring c =
     \<lparr>isDrifting = False, currentScore = 0, totalScore = 0, multiplier = 1, combo = 0,
      duration = 0, isInClippingZone = False,
      config = \<lparr>minDriftAngle = or_default (p_minDriftAngle c) 15,
                minSpeed = or_default (p_minSpeed c) 3,
                basePointsPerSecond = or_default (p_basePointsPerSecond c) 500,
                comboDecayTime = or_default (p_comboDecayTime c) 2000,
                comboBonus = or_default (p_comboBonus c) (2 / 10)\<rparr>,
      comboTimer = 0, lastDriftDir = 0\<rparr>"

definition startDrift :: "DriftScoring \<Rightarrow> DriftScoring" where
  "startDrift d = d\<lparr>isDrifting := True, currentScore := 0, duration := 0, combo := 1,
                     comboTimer := comboDecayTime (config d)\<rparr>"

definition endDrift :: "bool \<Rightarrow> DriftScoring \<Rightarrow> DriftScoring" where
  "endDrift bank d =
     (let d1 = (if bank then d\<lparr>totalScore := totalScore d + of_int \<lfloor>currentScore d\<rfloor>\<rparr>
                else d)
      in d1\<lparr>combo := 0, currentScore := 0, multiplier := 1, isDrifting := False,
              lastDriftDir := 0\<rparr>)"

text \<open>The local \<open>angleDeg\<close> of \<open>update\<close>: \<open>Math.abs(driftAngle * (180 / Math.PI))\<close>.\<close>

definition angleDeg :: "CarState \<Rightarrow> real" where
  "angleDeg carState = \<bar>driftAngle carState * (180 / pi)\<bar>"

text \<open>The chain step of \<open>update\<close>: a change of drift direction raises the combo and pays
  \<open>500 * combo\<close> at once.\<close>

definition chain :: "real \<Rightarrow> DriftScoring \<Rightarrow> DriftScoring" where
  "chain currentDir d =
     (if lastDriftDir d \<noteq> 0 \<and> currentDir \<noteq> 0 \<and> currentDir \<noteq> lastDriftDir d
      then let d1 = d\<lparr>combo := combo d + 1, lastDriftDir := currentDir\<rparr>
           in d1\<lparr>currentScore := currentScore d1 + 500 * of_int (combo d1)\<rparr>
      else d)"

text \<open>The accrual step of \<open>update\<close>, from "Apply clipping zone multiplier" to the reset of
  the combo timer.\<close>

definition accrue :: "real \<Rightarrow> real \<Rightarrow> real \<Rightarrow> DriftScoring \<Rightarrow> DriftScoring" where
  "accrue aDeg clippingMultiplier deltaTime d =
     (let d1 = d\<lparr>multiplier := clippingMultiplier\<rparr>;
          comboMultiplier = 1 + (of_int (combo d1) - 1) * comboBonus (config d1);
          angleBonus = max 1 (aDeg / 30);
          pointsThisFrame = basePointsPerSecond (config d1) * multiplier d1 * comboMultiplier
                            * angleBonus * deltaTime
      in d1\<lparr>currentScore := currentScore d1 + pointsThisFrame,
              duration := duration d1 + deltaTime,
              comboTimer := comboDecayTime (config d1)\<rparr>)"

definition update :: "DriftScoring \<Rightarrow> CarState \<Rightarrow> real \<Rightarrow> real \<Rightarrow> DriftScoring" where
  "update d0 carState clippingMultiplier deltaTime =
     (let d = d0\<lparr>isInClippingZone := clippingMultiplier > 1\<rparr>
      in if \<bar>speed carState\<bar> < minSpeed (config d)
         then (if isDrifting d \<or> currentScore d > 0 then endDrift False d else d)
         else
           let currentDir = sgn (driftAngle carState)
           in if angleDeg carState \<ge> minDriftAngle (config d)
              then
                let d1 = (if \<not> isDrifting d then (startDrift d)\<lparr>lastDriftDir := currentDir\<rparr>
                          else d)
                in accrue (angleDeg carState) clippingMultiplier deltaTime (chain currentDir d1)
              else
                if isDrifting d
                then let d1 = d\<lparr>comboTimer := comboTimer d - deltaTime * 1000\<rparr>
                     in if comboTimer d1 \<le> 0 then endDrift True d1 else d1
                else d)"

definition getState :: "DriftScoring \<Rightarrow> DriftState" where
  "getState d = DriftState.truncate d"

definition resetTotal :: "DriftScoring \<Rightarrow> DriftScoring" where
  "resetTotal d = d\<lparr>totalScore := 0, currentScore := 0, combo := 0, isDrifting := False,
                     lastDriftDir := 0\<rparr>"

text \<open>The scoring objects the program can hold: a fresh one, then any number of
  \<open>update\<close> and \<open>resetTotal\<close> calls (\<open>startDrift\<close> and \<open>endDrift\<close> are private and run inside
  \<open>update\<close>). \<open>ok\<close> says which clipping multipliers and tick lengths \<open>update\<close> is called
  with.\<close>

inductive reachable ::
  "(real \<Rightarrow> real \<Rightarrow> bool) \<Rightarrow> PartialDriftScoringConfig \<Rightarrow> DriftScoring \<Rightarrow> bool" for ok c where
  r_new: "reachable ok c (new_DriftScoring c)"
| r_update: "reachable ok c d \<Longrightarrow> ok m dt \<Longrightarrow> reachable ok c (update d cs m dt)"
| r_reset: "reachable ok c d \<Longrightarrow> reachable ok c (resetTotal d)"

definition any_call :: "real \<Rightarrow> real \<Rightarrow> bool" where
  "any_call m dt = True"

text \<open>A clipping multiplier of at least 1 and a tick length that is not negative.\<close>

definition scoring_call :: "real \<Rightarrow> real \<Rightarrow> bool" where
  "scoring_call m dt = (1 \<le> m \<and> 0 \<le> dt)"

section \<open>Clipping-zone detector (utils/ClippingSystem: class ClippingZoneDetector)\<close>

record RGB =
  r :: real
  g :: real
  b :: real

record ClippingZoneConfig =
  clippingColor :: RGB
  colorTolerance :: real
  pointMultiplier :: real
  detectionRadius :: real

record PartialClippingZoneConfig =
  p_clippingColor :: "RGB option"
  p_colorTolerance :: "real option"
  p_pointMultiplier :: "real option"
  p_detectionRadius :: "real option"

text \<open>The loaded \<open>HTMLImageElement\<close>, as far as the detector reads it: its pixel size.\<close>

record TrackImage =
  img_width :: nat
  img_height :: nat

text \<open>The detector object. \<open>imageData\<close> is the \<open>data\<close> array of the cached \<open>ImageData\<close>: four
  bytes (red, green, blue, alpha) for each pixel, row by row. The offscreen canvas and its
  context are only used while loading.\<close>

record ClippingZoneDetector =
  trackImage :: "TrackImage option"
  imageData :: "nat list option"
  detectorConfig :: ClippingZoneConfig

definition new_ClippingZoneDetector :: "PartialClippingZoneConfig \<Rightarrow> ClippingZoneDetector" where
  "new_ClippingZoneDetector c =
     \<lparr>trackImage = None, imageData = None,
      detectorConfig =
        \<lparr>clippingColor = (case p_clippingColor c of None \<Rightarrow> \<lparr>r = 255, g = 255, b = 255\<rparr>
                                                    | Some col \<Rightarrow> col),
         colorTolerance = or_default (p_colorTolerance c) 50,
         pointMultiplier = or_default (p_pointMultiplier c) (25 / 10),
         detectionRadius = or_default (p_detectionRadius c) 20\<rparr>\<rparr>"

definition empty_partial_clipping :: PartialClippingZoneConfig where
  "empty_partial_clipping = \<lparr>p_clippingColor = None, p_colorTolerance = None,
     p_pointMultiplier = None, p_detectionRadius = None\<rparr>"

text \<open>What \<open>loadTrack\<close> ends with: the image failed to load (\<open>onerror\<close>), or it loaded and
  the pixel data was read (or not, when no 2d context was available).\<close>

datatype load_result = LoadError | Loaded TrackImage "nat list option"

definition loadTrack :: "load_result \<Rightarrow> ClippingZoneDetector \<Rightarrow> ClippingZoneDetector" where
  "loadTrack res d =
     (case res of
        LoadError \<Rightarrow> d
      | Loaded img None \<Rightarrow> d\<lparr>trackImage := Some img\<rparr>
      | Loaded img (Some px) \<Rightarrow> d\<lparr>trackImage := Some img, imageData := Some px\<rparr>)"

text \<open>Reading a typed array: an index past its end gives \<open>undefined\<close>, here \<open>None\<close>.\<close>

definition array_get :: "nat list \<Rightarrow> nat \<Rightarrow> nat option" where
  "array_get xs i = (if i < length xs then Some (xs ! i) else None)"

definition getPixel ::
  "ClippingZoneDetector \<Rightarrow> real \<Rightarrow> real \<Rightarrow> (nat option \<times> nat option \<times> nat option) option" where
  "getPixel d x y =
     (case (imageData d, trackImage d) of
        (Some px_data, Some img) \<Rightarrow>
          (let px = \<lfloor>x\<rfloor>; py = \<lfloor>y\<rfloor>
           in if px < 0 \<or> py < 0 \<or> px \<ge> int (img_width img) \<or> py \<ge> int (img_height img)
              then None
              else let index = (nat py * img_width img + nat px) * 4
                   in Some (array_get px_data index, array_get px_data (index + 1),
                            array_get px_data (index + 2)))
      | _ \<Rightarrow> None)"

text \<open>A channel that is \<open>undefined\<close> makes its comparison false (it is NaN in the source).\<close>

definition channel_ok :: "nat option \<Rightarrow> real \<Rightarrow> real \<Rightarrow> bool" where
  "channel_ok v target tol = (case v of None \<Rightarrow> False | Some n \<Rightarrow> \<bar>real n - target\<bar> \<le> tol)"

definition isClippingZoneColor ::
  "ClippingZoneDetector \<Rightarrow> nat option \<times> nat option \<times> nat option \<Rightarrow> bool" where
  "isClippingZoneColor d p =
     (case p of (pr, pg, pb) \<Rightarrow>
        channel_ok pr (r (clippingColor (detectorConfig d))) (colorTolerance (detectorConfig d)) \<and>
        channel_ok pg (g (clippingColor (detectorConfig d))) (colorTolerance (detectorConfig d)) \<and>
        channel_ok pb (b (clippingColor (detectorConfig d))) (colorTolerance (detectorConfig d)))"

text \<open>\<open>this.trackImage?.width || 1\<close>.\<close>

definition width_or_1 :: "TrackImage option \<Rightarrow> real" where
  "width_or_1 t = (case t of None \<Rightarrow> 1 | Some img \<Rightarrow> if img_width img = 0 then 1 else real (img_width img))"

definition height_or_1 :: "TrackImage option \<Rightarrow> real" where
  "height_or_1 t = (case t of None \<Rightarrow> 1 | Some img \<Rightarrow> if img_height img = 0 then 1 else real (img_height img))"

definition offsets :: "real \<Rightarrow> real \<Rightarrow> (real \<times> real) list" where
  "offsets imgW imgH =
     [(- imgW * (5 / 10), imgH * (5 / 10)),
      (0, imgH * (5 / 10)),
      (imgW * (5 / 10), imgH * (5 / 10)),
      (- imgW * (5 / 10), - imgH * (5 / 10)),
      (imgW * (5 / 10), - imgH * (5 / 10)),
      (imgW * (5 / 10), 0),
      (- imgW * (5 / 10), 0)]"

definition getCarCheckPoints ::
  "ClippingZoneDetector \<Rightarrow> real \<Rightarrow> real \<Rightarrow> real \<Rightarrow> real \<Rightarrow> real \<Rightarrow> real \<Rightarrow> real
   \<Rightarrow> (real \<times> real) list" where
  "getCarCheckPoints d centerX centerY carWidth carHeight angleRad trackWidth trackHeight =
     (let imgScaleX = width_or_1 (trackImage d) / trackWidth;
          imgScaleY = height_or_1 (trackImage d) / trackHeight;
          imgW = carWidth * imgScaleX;
          imgH = carHeight * imgScaleY
      in map (\<lambda>(ox, oy). (centerX + (ox * cos angleRad - oy * sin angleRad),
                           centerY + (ox * sin angleRad + oy * cos angleRad)))
             (offsets imgW imgH))"

text \<open>The loop of \<open>checkClippingZone\<close> over the check points, carrying
  \<open>(clippingHits, totalChecks)\<close>.\<close>

fun countHits :: "ClippingZoneDetector \<Rightarrow> (real \<times> real) list \<Rightarrow> nat \<times> nat \<Rightarrow> nat \<times> nat" where
  "countHits d [] acc = acc"
| "countHits d ((x, y) # ps) (clippingHits, totalChecks) =
     (case getPixel d x y of
        None \<Rightarrow> countHits d ps (clippingHits, totalChecks)
      | Some pixel \<Rightarrow>
          countHits d ps
            (if isClippingZoneColor d pixel then clippingHits + 1 else clippingHits,
             totalChecks + 1))"

definition checkPoints :: "ClippingZoneDetector \<Rightarrow> TrackImage \<Rightarrow> CarState \<Rightarrow> real \<Rightarrow> real
   \<Rightarrow> (real \<times> real) list" where
  "checkPoints d img carState trackWidth trackHeight =
     (let imageX = (xPos carState / trackWidth) * real (img_width img);
          imageY = (yPos carState / trackHeight) * real (img_height img)
      in getCarCheckPoints d imageX imageY (width carState) (height carState)
           (angle carState * (pi / 180)) trackWidth trackHeight)"

definition checkClippingZone :: "ClippingZoneDetector \<Rightarrow> CarState \<Rightarrow> real \<Rightarrow> real \<Rightarrow> real" where
  "checkClippingZone d carState trackWidth trackHeight =
     (case (trackImage d, imageData d) of
        (Some img, Some px_data) \<Rightarrow>
          (case countHits d (checkPoints d img carState trackWidth trackHeight) (0, 0) of
             (clippingHits, totalChecks) \<Rightarrow>
               if totalChecks > 0 \<and> real clippingHits / real totalChecks \<ge> 3 / 10
               then pointMultiplier (detectorConfig d)
               else 1)
      | _ \<Rightarrow> 1)"

section \<open>The drift system (utils/ClippingSystem: createDriftSystem)\<close>

text \<open>The object \<open>createDriftSystem\<close> returns, with the property \<open>_lastState\<close> the game loop
  attaches to it. \<open>DriftScoring.update\<close> returns its own \<open>state\<close> object, not a copy, so
  \<open>_lastState\<close>, once set, is that very object: reading \<open>_lastState.totalScore\<close> reads the
  scoring object's current \<open>totalScore\<close>. The model keeps whether the property is set.\<close>

record DriftSystem =
  detector :: ClippingZoneDetector
  scoring :: DriftScoring
  hasLastState :: bool

definition createDriftSystem :: "load_result option \<Rightarrow> DriftSystem" where
  "createDriftSystem track =
     \<lparr>detector = (case track of
                    None \<Rightarrow> new_ClippingZoneDetector empty_partial_clipping
                  | Some res \<Rightarrow> loadTrack res (new_ClippingZoneDetector empty_partial_clipping)),
      scoring = new_DriftScoring empty_partial,
      hasLastState = False\<rparr>"

definition system_update :: "DriftSystem \<Rightarrow> CarState \<Rightarrow> real \<Rightarrow> real \<Rightarrow> real \<Rightarrow> DriftSystem" where
  "system_update sys carState trackWidth trackHeight deltaTime =
     (let m = checkClippingZone (detector sys) carState trackWidth trackHeight
      in sys\<lparr>scoring := update (scoring sys) carState m deltaTime\<rparr>)"

definition resetScore :: "DriftSystem \<Rightarrow> DriftSystem" where
  "resetScore sys = sys\<lparr>scoring := resetTotal (scoring sys)\<rparr>"

section \<open>The game loop (components/GameCanvas.tsx)\<close>

definition REPLAY_MAX_FRAMES :: nat where
  "REPLAY_MAX_FRAMES = 1800"

definition REFERENCE_WIDTH :: real where
  "REFERENCE_WIDTH = 390"

definition TILE_SIZE :: real where
  "TILE_SIZE = 256"

definition FPS :: real where
  "FPS = 60"

text \<open>\<open>MapData\<close>, as far as the simulation reads it (the tiles are drawn, not simulated).\<close>

record MapData =
  map_width :: real
  map_height :: real

record GhostFrame =
  ghost_x :: real
  ghost_y :: real
  ghost_angle :: real
  ghost_driftAngle :: real

record GhostRun =
  frames :: "GhostFrame list"
  ghost_totalScore :: real

text \<open>\<open>replayStateRef\<close>; its field \<open>speed\<close> is \<open>speed_replay\<close> here.\<close>

record ReplayState =
  index :: real
  isPlaying :: bool
  speed_replay :: real
  framesSinceLastUIUpdate :: nat

text \<open>The mutable references of the component.\<close>

record Game =
  car :: CarState
  replayData :: "CarState list"
  replayState :: ReplayState
  currentRun :: "GhostFrame list"
  ghostRun :: "GhostRun option"
  driftSystem :: "DriftSystem option"

text \<open>What one call of \<open>updatePhysics\<close> reads from outside the references: the props and
  the effective world size.\<close>

record TickInput =
  params :: GameParams
  inputState :: InputState
  isReplaying :: bool
  mapData :: "MapData option"
  effectiveWidth :: real
  effectiveHeight :: real

definition new_Game :: Game where
  "new_Game =
     \<lparr>car = \<lparr>xPos = 0, yPos = 0, xSpeed = 0, ySpeed = 0, speed = 0, driftAngle = 0, angle = 0,
              angularVelocity = 0, isTurning = False, isReversing = False,
              width = 25, height = 50\<rparr>,
      replayData = [],
      replayState = \<lparr>index = 0, isPlaying = True, speed_replay = 1,
                      framesSinceLastUIUpdate = 0\<rparr>,
      currentRun = [],
      ghostRun = None,
      driftSystem = None\<rparr>"

text \<open>\<open>buf.push(x); if (buf.length > REPLAY_MAX_FRAMES) buf.shift();\<close>\<close>

definition push_bounded :: "'a \<Rightarrow> 'a list \<Rightarrow> 'a list" where
  "push_bounded x buf =
     (let buf1 = buf @ [x] in if length buf1 > REPLAY_MAX_FRAMES then tl buf1 else buf1)"

text \<open>The replay branch of \<open>updatePhysics\<close>. The \<open>replay-update\<close> event and the sound
  engine are outputs and are not modelled; the counter that throttles the event is.\<close>

definition replayTick :: "Game \<Rightarrow> Game" where
  "replayTick gm =
     (let st = replayState gm;
          totalFrames = length (replayData gm)
      in if totalFrames = 0 then gm
         else
           let st1 = (if isPlaying st
                      then let i = index st + speed_replay st
                           in st\<lparr>index := (if i \<ge> real totalFrames then 0 else i)\<rparr>
                      else st);
               frameIndex = \<lfloor>index st1\<rfloor>;
               car1 = (if 0 \<le> frameIndex \<and> nat frameIndex < totalFrames
                       then replayData gm ! nat frameIndex
                       else car gm);
               n = framesSinceLastUIUpdate st1 + 1;
               st2 = st1\<lparr>framesSinceLastUIUpdate := (if n > 5 then 0 else n)\<rparr>
           in gm\<lparr>car := car1, replayState := st2\<rparr>)"

text \<open>The turn contribution of one steering key: \<open>turnFactor * authority * dir\<close>. The
  division by \<open>maxSpeed\<close> is the source's; with \<open>maxSpeed = 0\<close> HOL's quotient is 0 where
  the source's is infinite or NaN.\<close>

definition turnAmount :: "GameParams \<Rightarrow> InputState \<Rightarrow> CarState \<Rightarrow> real" where
  "turnAmount p inp c =
     (let dir = (if up inp then 1 else (if speed c > 0 then 1 else - 1))
      in turnFactor p * (if up inp then 1 else (speed c / maxSpeed p) * 2) * dir)"

text \<open>The live branch of \<open>updatePhysics\<close> up to the bounds wrapping, phase by phase as
  the source numbers them. "1. Acceleration / Braking":\<close>

definition accelerate :: "GameParams \<Rightarrow> InputState \<Rightarrow> CarState \<Rightarrow> CarState" where
  "accelerate p inp car0 =
     (let throttle = (up inp \<and> \<not> eBrake inp);
          c1 = (if throttle \<and> speed car0 < maxSpeed p
                then car0\<lparr>speed := speed car0 + accelerationFactor p\<rparr> else car0)
      in if down inp \<and> speed c1 > maxReverseSpeed p
         then c1\<lparr>speed := speed c1 - decelerationFactor p\<rparr> else c1)"

text \<open>"2. Turning":\<close>

definition turning :: "GameParams \<Rightarrow> InputState \<Rightarrow> CarState \<Rightarrow> CarState" where
  "turning p inp c2 =
     (let isMoving = (\<bar>speed c2\<bar> > 1 / 10);
          c3 = (if left inp \<and> isMoving
                then c2\<lparr>isTurning := True,
                        angularVelocity := angularVelocity c2 - turnAmount p inp c2\<rparr>
                else c2)
      in if right inp \<and> isMoving
         then c3\<lparr>isTurning := True,
                 angularVelocity := angularVelocity c3 + turnAmount p inp c3\<rparr>
         else c3)"

text \<open>"3. Drift Physics":\<close>

definition driftPhysics :: "GameParams \<Rightarrow> CarState \<Rightarrow> CarState" where
  "driftPhysics p c4 =
     (let c5 = c4\<lparr>isReversing := speed c4 < 0\<rparr>;
          angularDamping = 94 / 100;
          c6 = c5\<lparr>angularVelocity := angularVelocity c5 * angularDamping\<rparr>;
          c7 = (if \<not> isReversing c6
                then c6\<lparr>driftAngle := driftAngle c6
                                      + driftFactor p * angularVelocity c6 * oversteer p\<rparr>
                else c6);
          driftDamping = 94 / 100;
          c8 = c7\<lparr>driftAngle := driftAngle c7 * driftDamping\<rparr>
      in c8\<lparr>angle := angle c8 + angularVelocity c8\<rparr>)"

text \<open>"Friction":\<close>

definition friction :: "GameParams \<Rightarrow> InputState \<Rightarrow> CarState \<Rightarrow> CarState" where
  "friction p inp c9 =
     (let drag = (if eBrake inp then eBrakeDecay p else 98 / 100);
          lateralFriction = (if eBrake inp then 15 / 100 else 1)
      in c9\<lparr>speed := speed c9 * drag
                       - (if isReversing c9 then - 1 else 1)
                         * ((\<bar>driftAngle c9\<bar> * speed c9) / 1000) * lateralFriction\<rparr>)"

text \<open>"Velocity Vectors", with the position update:\<close>

definition velocity :: "InputState \<Rightarrow> CarState \<Rightarrow> CarState" where
  "velocity inp c10 =
     (let turnDrag = (if isTurning c10 \<and> \<not> eBrake inp then 94 / 100 else 1);
          c11 = c10\<lparr>xSpeed := sin ((pi / 180) * (angle c10 - driftAngle c10))
                                * speed c10 * turnDrag\<rparr>;
          c12 = c11\<lparr>ySpeed := cos ((pi / 180) * (angle c11 - driftAngle c11))
                                * speed c11 * turnDrag\<rparr>;
          c13 = c12\<lparr>xPos := xPos c12 + xSpeed c12\<rparr>
      in c13\<lparr>yPos := yPos c13 - ySpeed c13\<rparr>)"

text \<open>"5. Bounds wrapping":\<close>

definition wrapBounds :: "real \<Rightarrow> real \<Rightarrow> CarState \<Rightarrow> CarState" where
  "wrapBounds mapW mapH c14 =
     (let c15 = (if xPos c14 > mapW then c14\<lparr>xPos := 0\<rparr>
                 else if xPos c14 < 0 then c14\<lparr>xPos := mapW\<rparr> else c14)
      in if yPos c15 > mapH then c15\<lparr>yPos := 0\<rparr>
         else if yPos c15 < 0 then c15\<lparr>yPos := mapH\<rparr> else c15)"

definition physicsStep :: "GameParams \<Rightarrow> InputState \<Rightarrow> real \<Rightarrow> real \<Rightarrow> CarState \<Rightarrow> CarState" where
  "physicsStep p inp mapW mapH car0 =
     wrapBounds mapW mapH
       (velocity inp (friction p inp (driftPhysics p (turning p inp (accelerate p inp car0)))))"

definition worldWidth :: "TickInput \<Rightarrow> real" where
  "worldWidth t = (case mapData t of Some m \<Rightarrow> map_width m * TILE_SIZE | None \<Rightarrow> effectiveWidth t)"

definition worldHeight :: "TickInput \<Rightarrow> real" where
  "worldHeight t = (case mapData t of Some m \<Rightarrow> map_height m * TILE_SIZE | None \<Rightarrow> effectiveHeight t)"

definition ghostFrameOf :: "CarState \<Rightarrow> GhostFrame" where
  "ghostFrameOf c = \<lparr>ghost_x = xPos c, ghost_y = yPos c, ghost_angle = angle c,
                     ghost_driftAngle = driftAngle c\<rparr>"

text \<open>The live branch of \<open>updatePhysics\<close>: the car's step, the scoring update when a drift
  system is present, then the two recordings.\<close>

definition liveTick :: "TickInput \<Rightarrow> Game \<Rightarrow> Game" where
  "liveTick t gm =
     (let car1 = physicsStep (params t) (inputState t) (worldWidth t) (worldHeight t) (car gm);
          sys1 = (case driftSystem gm of
                    None \<Rightarrow> None
                  | Some sys \<Rightarrow>
                      Some ((system_update sys car1 (worldWidth t) (worldHeight t) (1 / FPS))
                              \<lparr>hasLastState := True\<rparr>))
      in gm\<lparr>car := car1,
            driftSystem := sys1,
            replayData := push_bounded car1 (replayData gm),
            currentRun := push_bounded (ghostFrameOf car1) (currentRun gm)\<rparr>)"

definition updatePhysics :: "TickInput \<Rightarrow> Game \<Rightarrow> Game" where
  "updatePhysics t gm = (if isReplaying t then replayTick gm else liveTick t gm)"

text \<open>A run of live ticks, one input per tick.\<close>

fun runLive :: "TickInput list \<Rightarrow> Game \<Rightarrow> Game" where
  "runLive [] gm = gm"
| "runLive (t # ts) gm = runLive ts (liveTick t gm)"

text \<open>\<open>resetCarPosition\<close>; \<open>innerWidth\<close> and \<open>innerHeight\<close> are the window's.\<close>

definition resetCarPosition :: "MapData option \<Rightarrow> real \<Rightarrow> real \<Rightarrow> real \<Rightarrow> CarState \<Rightarrow> CarState" where
  "resetCarPosition md zoom_p innerWidth innerHeight c =
     (case md of
        Some m \<Rightarrow> c\<lparr>xPos := (map_width m * TILE_SIZE) / 2, yPos := (map_height m * TILE_SIZE) / 2\<rparr>
      | None \<Rightarrow>
          if innerWidth \<noteq> 0
          then let initialScale = innerWidth / REFERENCE_WIDTH;
                   effectiveZoom = zoom_p * initialScale
               in c\<lparr>xPos := (innerWidth / effectiveZoom) / 2,
                     yPos := (innerHeight / effectiveZoom) / 2\<rparr>
          else c)"

text \<open>The score \<open>handleClear\<close> captures: \<open>_lastState.totalScore\<close> when a drift system is
  present and has been updated, otherwise 0.\<close>

definition capturedScore :: "Game \<Rightarrow> real" where
  "capturedScore gm =
     (case driftSystem gm of
        None \<Rightarrow> 0
      | Some sys \<Rightarrow> if hasLastState sys then totalScore (scoring sys) else 0)"

text \<open>The ghost logic at the head of \<open>handleClear\<close>.\<close>

definition ghostLogic :: "Game \<Rightarrow> GhostRun option" where
  "ghostLogic gm =
     (if length (currentRun gm) > 0
      then let currentScore_c = capturedScore gm
           in (case ghostRun gm of
                 None \<Rightarrow> Some \<lparr>frames = currentRun gm, ghost_totalScore = currentScore_c\<rparr>
               | Some gh \<Rightarrow>
                   if currentScore_c > ghost_totalScore gh
                   then Some \<lparr>frames = currentRun gm, ghost_totalScore = currentScore_c\<rparr>
                   else Some gh)
      else ghostRun gm)"

definition handleClear :: "MapData option \<Rightarrow> real \<Rightarrow> real \<Rightarrow> real \<Rightarrow> Game \<Rightarrow> Game" where
  "handleClear md zoom_p innerWidth innerHeight gm =
     (let gm1 = gm\<lparr>ghostRun := ghostLogic gm\<rparr>;
          gm2 = gm1\<lparr>replayData := [], currentRun := []\<rparr>;
          gm3 = gm2\<lparr>driftSystem := map_option resetScore (driftSystem gm2)\<rparr>;
          c1 = resetCarPosition md zoom_p innerWidth innerHeight (car gm3)
      in gm3\<lparr>car := c1\<lparr>speed := 0, driftAngle := 0, angle := 0\<rparr>\<rparr>)"

text \<open>\<open>DEFAULT_PARAMS\<close> of types.ts (its physics fields).\<close>

definition DEFAULT_PARAMS :: GameParams where
  "DEFAULT_PARAMS =
     \<lparr>maxSpeed = 5, maxReverseSpeed = - 4, accelerationFactor = 1 / 10,
      decelerationFactor = 1 / 10, driftFactor = 145 / 100, turnFactor = 2 / 10,
      oversteer = 12 / 10, zoom = 4 / 10, carScale = 1, eBrakeDecay = 995 / 1000\<rparr>"

section \<open>Invariants and reference predicates used by the theorems\<close>

text \<open>The car states a run of live ticks records, oldest first.\<close>

fun recorded :: "TickInput list \<Rightarrow> Game \<Rightarrow> CarState list" where
  "recorded [] gm = []"
| "recorded (t # ts) gm = car (liveTick t gm) # recorded ts (liveTick t gm)"

text \<open>The detector's result in the words of its description: a check point is in bounds
  when its nearest pixel (coordinates rounded down) lies inside the image; the pixel there
  is read from the row-major RGBA data; it matches when each of red, green and blue is
  within the tolerance of the target colour.\<close>

definition inBounds :: "TrackImage \<Rightarrow> real \<times> real \<Rightarrow> bool" where
  "inBounds img p =
     (0 \<le> \<lfloor>fst p\<rfloor> \<and> 0 \<le> \<lfloor>snd p\<rfloor> \<and>
      \<lfloor>fst p\<rfloor> < int (img_width img) \<and> \<lfloor>snd p\<rfloor> < int (img_height img))"

definition pixelAt :: "TrackImage \<Rightarrow> nat list \<Rightarrow> real \<times> real \<Rightarrow> nat \<times> nat \<times> nat" where
  "pixelAt img px_data p =
     (let i = 4 * (nat \<lfloor>snd p\<rfloor> * img_width img + nat \<lfloor>fst p\<rfloor>)
      in (px_data ! i, px_data ! (i + 1), px_data ! (i + 2)))"

definition matchesTarget :: "ClippingZoneConfig \<Rightarrow> nat \<times> nat \<times> nat \<Rightarrow> bool" where
  "matchesTarget cfg c =
     (case c of (cr, cg, cb) \<Rightarrow>
        \<bar>real cr - r (clippingColor cfg)\<bar> \<le> colorTolerance cfg \<and>
        \<bar>real cg - g (clippingColor cfg)\<bar> \<le> colorTolerance cfg \<and>
        \<bar>real cb - b (clippingColor cfg)\<bar> \<le> colorTolerance cfg)"

text \<open>The sample points in the words of the description: the car's position mapped to
  image pixels by linear scaling, and around it the four corners and three edge midpoints
  of the car's rectangle (its width and height scaled to image pixels), turned by the
  heading angle; the drift angle plays no part.\<close>

definition rotateBy :: "real \<Rightarrow> real \<times> real \<Rightarrow> real \<times> real" where
  "rotateBy theta p = (fst p * cos theta - snd p * sin theta, fst p * sin theta + snd p * cos theta)"

definition silhouettePoints :: "TrackImage \<Rightarrow> CarState \<Rightarrow> real \<Rightarrow> real \<Rightarrow> (real \<times> real) list" where
  "silhouettePoints img cs tw th =
     (let cx = xPos cs / tw * real (img_width img);
          cy = yPos cs / th * real (img_height img);
          hw = width cs * (real (img_width img) / tw) / 2;
          hh = height cs * (real (img_height img) / th) / 2;
          theta = angle cs * pi / 180
      in map (\<lambda>p. (cx + fst (rotateBy theta p), cy + snd (rotateBy theta p)))
           [(- hw, hh), (0, hh), (hw, hh), (- hw, - hh), (hw, - hh), (hw, 0), (- hw, 0)])"

definition clippingResult ::
  "ClippingZoneConfig \<Rightarrow> TrackImage \<Rightarrow> nat list \<Rightarrow> (real \<times> real) list \<Rightarrow> real" where
  "clippingResult cfg img px_data pts =
     (let inside = filter (inBounds img) pts;
          hits = filter (\<lambda>p. matchesTarget cfg (pixelAt img px_data p)) inside
      in if inside \<noteq> [] \<and> 3 / 10 \<le> real (length hits) / real (length inside)
         then pointMultiplier cfg else 1)"

text \<open>Scores are not negative, and a drifting session has a combo of at least 1.\<close>

definition scores_ok :: "DriftScoring \<Rightarrow> bool" where
  "scores_ok d =
     (0 \<le> currentScore d \<and> 0 \<le> totalScore d \<and> (if isDrifting d then 1 \<le> combo d else True))"

section \<open>Concrete inputs\<close>

text \<open>The input \<open>{up: true}\<close>, every other key released, and a live tick that holds it with
  the default parameters on a world of 975 by 650 units without a tile map.\<close>

definition input_up :: InputState where
  "input_up = \<lparr>up = True, down = False, left = False, right = False, brake = False,
                eBrake = False\<rparr>"

definition tick_up :: TickInput where
  "tick_up = \<lparr>params = DEFAULT_PARAMS, inputState = input_up, isReplaying = False,
               mapData = None, effectiveWidth = 975, effectiveHeight = 650\<rparr>"

text \<open>A car at speed 4 sliding with a drift angle of a third of a degree (which the
  scoring reads as about 19), and the same car going straight. A fresh scoring object
  after one tick of that slide, and after 3 more seconds going straight, which lets the
  combo timer run out.\<close>

definition drift_car :: CarState where
  "drift_car = (car new_Game)\<lparr>speed := 4, driftAngle := 1 / 3\<rparr>"

definition straight_car :: CarState where
  "straight_car = (car new_Game)\<lparr>speed := 4\<rparr>"

definition drifting_scoring :: DriftScoring where
  "drifting_scoring = update (new_DriftScoring empty_partial) drift_car 1 (1 / 60)"

definition banked_scoring :: DriftScoring where
  "banked_scoring = update drifting_scoring straight_car 1 3"

text \<open>A replay of three recorded frames, told apart by their \<open>xPos\<close>, with a given
  playhead, playing flag and speed.\<close>

definition frame_at :: "real \<Rightarrow> CarState" where
  "frame_at v = (car new_Game)\<lparr>xPos := v\<rparr>"

definition replay_game :: "real \<Rightarrow> bool \<Rightarrow> real \<Rightarrow> Game" where
  "replay_game i playing sp =
     new_Game\<lparr>replayData := [frame_at 10, frame_at 20, frame_at 30],
               replayState := \<lparr>index = i, isPlaying = playing, speed_replay = sp,
                               framesSinceLastUIUpdate = 0\<rparr>\<rparr>"

text \<open>A game whose drift system has been created (without a track image). A run of the
  drift system: the car slides for \<open>dt\<close> seconds, then goes straight for 3 seconds, so the
  drift is banked; the game loop has stored \<open>_lastState\<close>. A run of the game: one frame
  recorded, the drift system run that way.\<close>

definition fresh_game :: Game where
  "fresh_game = new_Game\<lparr>driftSystem := Some (createDriftSystem None)\<rparr>"

definition run_system :: "real \<Rightarrow> DriftSystem \<Rightarrow> DriftSystem" where
  "run_system dt sys =
     (system_update (system_update sys drift_car 975 650 dt) straight_car 975 650 3)
       \<lparr>hasLastState := True\<rparr>"

definition scored_run :: "real \<Rightarrow> Game \<Rightarrow> Game" where
  "scored_run dt gm =
     gm\<lparr>currentRun := [ghostFrameOf drift_car],
         driftSystem := map_option (run_system dt) (driftSystem gm)\<rparr>"

text \<open>A 10 by 10 image, black but for white pixels at (6, 4) and (6, 5), and one with the
  white pixel at (6, 4) only; default detectors that loaded them. A car of 2 by 4 world
  units at (8.5, 5.5) in a 10 by 10 world, heading 90 degrees, and the same car heading
  0 degrees.\<close>

definition two_spot_image :: "nat list" where
  "two_spot_image =
     (replicate 400 0)[184 := 255, 185 := 255, 186 := 255, 224 := 255, 225 := 255, 226 := 255]"

definition one_spot_image :: "nat list" where
  "one_spot_image = (replicate 400 0)[184 := 255, 185 := 255, 186 := 255]"

definition square_10 :: TrackImage where
  "square_10 = \<lparr>img_width = 10, img_height = 10\<rparr>"

definition two_spot_detector :: ClippingZoneDetector where
  "two_spot_detector =
     loadTrack (Loaded square_10 (Some two_spot_image))
       (new_ClippingZoneDetector empty_partial_clipping)"

definition one_spot_detector :: ClippingZoneDetector where
  "one_spot_detector =
     loadTrack (Loaded square_10 (Some one_spot_image))
       (new_ClippingZoneDetector empty_partial_clipping)"

definition edge_car :: CarState where
  "edge_car = (car new_Game)\<lparr>xPos := 17 / 2, yPos := 11 / 2, angle := 90, width := 2,
                              height := 4\<rparr>"

definition edge_car_ahead :: CarState where
  "edge_car_ahead = edge_car\<lparr>angle := 0\<rparr>"

section \<open>Helper lemmas on the scoring steps\<close>

lemma endDrift_idle:
  "\<not> isDrifting (endDrift bank d) \<and> currentScore (endDrift bank d) = 0 \<and>
   combo (endDrift bank d) = 0"
  by (simp add: endDrift_def Let_def)

lemma endDrift_total:
  "totalScore (endDrift bank d) =
     (if bank then totalScore d + of_int \<lfloor>currentScore d\<rfloor> else totalScore d)"
  by (simp add: endDrift_def Let_def)

lemma endDrift_config: "config (endDrift bank d) = config d"
  by (simp add: endDrift_def Let_def)

lemma accrue_drifting: "isDrifting (accrue a m dt d) = isDrifting d"
  by (simp add: accrue_def Let_def)

lemma accrue_fields:
  "totalScore (accrue a m dt d) = totalScore d \<and> combo (accrue a m dt d) = combo d \<and>
   config (accrue a m dt d) = config d"
  by (simp add: accrue_def Let_def)

lemma chain_fields:
  "isDrifting (chain dir d) = isDrifting d \<and> totalScore (chain dir d) = totalScore d \<and>
   config (chain dir d) = config d"
  by (simp add: chain_def Let_def)

lemma update_config: "config (update d cs m dt) = config d"
  by (simp add: update_def Let_def endDrift_config accrue_fields chain_fields startDrift_def)

lemma reachable_config: "reachable ok c d \<Longrightarrow> config d = config (new_DriftScoring c)"
  by (induction rule: reachable.induct) (simp_all add: update_config resetTotal_def)

lemma update_keeps_idle_zero:
  "isDrifting d \<or> currentScore d = 0 \<Longrightarrow>
   isDrifting (update d cs m dt) \<or> currentScore (update d cs m dt) = 0"
  unfolding update_def Let_def
  by (auto simp: endDrift_idle accrue_drifting chain_fields startDrift_def)

lemma reachable_idle_zero: "reachable ok c d \<Longrightarrow> isDrifting d \<or> currentScore d = 0"
proof (induction rule: reachable.induct)
  case r_new
  show ?case by (simp add: new_DriftScoring_def)
next
  case (r_update d m dt cs)
  then show ?case by (simp add: update_keeps_idle_zero)
next
  case (r_reset d)
  show ?case by (simp add: resetTotal_def)
qed

section \<open>A drift that scores and banks\<close>

lemma pi_less_4: "pi < 4"
  using pi_half_less_two by simp

lemma default_config:
  "config (new_DriftScoring empty_partial)
     = \<lparr>minDriftAngle = 15, minSpeed = 3, basePointsPerSecond = 500, comboDecayTime = 2000,
        comboBonus = 2 / 10\<rparr>"
  by (simp add: new_DriftScoring_def empty_partial_def or_default_def)

lemma angleDeg_drift_car:
  shows "angleDeg drift_car = 60 / pi" and "15 \<le> angleDeg drift_car" and "angleDeg drift_car \<le> 30"
proof -
  show a: "angleDeg drift_car = 60 / pi"
    by (simp add: angleDeg_def drift_car_def)
  have "15 * pi \<le> 60" using pi_less_4 by simp
  then show "15 \<le> angleDeg drift_car" by (simp add: a pos_le_divide_eq)
  have "60 \<le> 30 * pi" using pi_ge_two by simp
  then show "angleDeg drift_car \<le> 30" by (simp add: a pos_divide_le_eq)
qed

lemma angleDeg_straight_car: "angleDeg straight_car = 0"
  by (simp add: angleDeg_def straight_car_def new_Game_def)

text \<open>One update with the sliding car starts a drift on an idle scoring object and pays
  500 points per second.\<close>

lemma update_drift_car:
  assumes cfg: "config sc = config (new_DriftScoring empty_partial)"
      and idle: "\<not> isDrifting sc"
  shows "isDrifting (update sc drift_car 1 dt)"
    and "currentScore (update sc drift_car 1 dt) = 500 * dt"
    and "totalScore (update sc drift_car 1 dt) = totalScore sc"
    and "comboTimer (update sc drift_car 1 dt) = 2000"
    and "config (update sc drift_car 1 dt) = config sc"
proof -
  let ?d1 = "(startDrift (sc\<lparr>isInClippingZone := False\<rparr>))\<lparr>lastDriftDir := 1\<rparr>"
  have sp: "\<bar>speed drift_car\<bar> = 4" "sgn (driftAngle drift_car) = 1"
    by (simp_all add: drift_car_def)
  have u: "update sc drift_car 1 dt = accrue (angleDeg drift_car) 1 dt (chain 1 ?d1)"
    using angleDeg_drift_car(2) idle
    by (simp add: update_def Let_def cfg default_config sp)
  have ch: "chain 1 ?d1 = ?d1" by (simp add: chain_def)
  have mx: "max 1 (angleDeg drift_car / 30) = 1"
    using angleDeg_drift_car(3) by (simp add: max_def)
  have acc: "accrue (angleDeg drift_car) 1 dt ?d1
               = ?d1\<lparr>multiplier := 1, currentScore := 500 * dt, duration := dt,
                       comboTimer := 2000\<rparr>"
    unfolding accrue_def Let_def mx
    by (simp add: startDrift_def cfg default_config)
  show "isDrifting (update sc drift_car 1 dt)"
    unfolding u ch acc by (simp add: startDrift_def)
  show "currentScore (update sc drift_car 1 dt) = 500 * dt"
    unfolding u ch acc by simp
  show "totalScore (update sc drift_car 1 dt) = totalScore sc"
    unfolding u ch acc by (simp add: startDrift_def)
  show "comboTimer (update sc drift_car 1 dt) = 2000"
    unfolding u ch acc by simp
  show "config (update sc drift_car 1 dt) = config sc"
    by (rule update_config)
qed

text \<open>Three seconds going straight run the combo timer of a drift out: the drift ends and
  its floored score is banked.\<close>

lemma update_straight_banks:
  assumes cfg: "config d = config (new_DriftScoring empty_partial)"
      and dr: "isDrifting d" and tm: "comboTimer d \<le> 3000"
  shows "\<not> isDrifting (update d straight_car 1 3)"
    and "currentScore (update d straight_car 1 3) = 0"
    and "totalScore (update d straight_car 1 3) = totalScore d + of_int \<lfloor>currentScore d\<rfloor>"
    and "config (update d straight_car 1 3) = config d"
proof -
  have sp: "\<bar>speed straight_car\<bar> = 4" by (simp add: straight_car_def)
  have u: "update d straight_car 1 3
             = endDrift True (d\<lparr>isInClippingZone := False, comboTimer := comboTimer d - 3000\<rparr>)"
    using dr tm by (simp add: update_def Let_def cfg default_config sp angleDeg_straight_car)
  show "\<not> isDrifting (update d straight_car 1 3)"
    unfolding u by (simp add: endDrift_idle)
  show "currentScore (update d straight_car 1 3) = 0"
    unfolding u by (simp add: endDrift_idle)
  show "totalScore (update d straight_car 1 3) = totalScore d + of_int \<lfloor>currentScore d\<rfloor>"
    unfolding u by (simp add: endDrift_total)
  show "config (update d straight_car 1 3) = config d"
    by (rule update_config)
qed

lemma drifting_scoring_fields:
  shows "isDrifting drifting_scoring" and "currentScore drifting_scoring = 25 / 3"
  and "totalScore drifting_scoring = 0" and "comboTimer drifting_scoring = 2000"
  and "config drifting_scoring = config (new_DriftScoring empty_partial)"
proof -
  have i: "\<not> isDrifting (new_DriftScoring empty_partial)"
    by (simp add: new_DriftScoring_def)
  note u = update_drift_car [OF refl i, of "1 / 60"]
  show "isDrifting drifting_scoring" unfolding drifting_scoring_def by (rule u(1))
  show "currentScore drifting_scoring = 25 / 3" unfolding drifting_scoring_def using u(2) by simp
  show "totalScore drifting_scoring = 0"
    unfolding drifting_scoring_def using u(3) by (simp add: new_DriftScoring_def)
  show "comboTimer drifting_scoring = 2000" unfolding drifting_scoring_def by (rule u(4))
  show "config drifting_scoring = config (new_DriftScoring empty_partial)"
    unfolding drifting_scoring_def by (rule u(5))
qed

lemma floor_25_3: "\<lfloor>25 / 3 :: real\<rfloor> = 8"
  by (simp add: floor_eq_iff)

lemma banked_scoring_fields:
  shows "\<not> isDrifting banked_scoring" and "currentScore banked_scoring = 0"
  and "totalScore banked_scoring = 8"
proof -
  have t: "comboTimer drifting_scoring \<le> 3000" by (simp add: drifting_scoring_fields(4))
  note b = update_straight_banks [OF drifting_scoring_fields(5) drifting_scoring_fields(1) t]
  show "\<not> isDrifting banked_scoring" unfolding banked_scoring_def by (rule b(1))
  show "currentScore banked_scoring = 0" unfolding banked_scoring_def by (rule b(2))
  show "totalScore banked_scoring = 8"
    unfolding banked_scoring_def using b(3)
    by (simp add: drifting_scoring_fields(2,3) floor_25_3)
qed

text \<open>C3: at every tick boundary the current score is 0 whenever the machine is not
  drifting: in every state reached from a fresh scoring object by \<open>update\<close> and
  \<open>resetTotal\<close> calls (whatever their arguments), and right after \<open>endDrift\<close> and
  \<open>resetTotal\<close>.\<close>

theorem idle_currentScore_zero:
  assumes "reachable any_call c d"
  shows "(\<not> isDrifting d \<longrightarrow> currentScore d = 0) \<and>
         (\<not> isDrifting (endDrift bank d) \<and> currentScore (endDrift bank d) = 0) \<and>
         (\<not> isDrifting (resetTotal d) \<and> currentScore (resetTotal d) = 0)"
  using reachable_idle_zero [OF assms] by (auto simp: endDrift_idle resetTotal_def)

theorem idle_currentScore_zero_witness:
  "reachable any_call empty_partial banked_scoring \<and>
   isDrifting drifting_scoring \<and> currentScore drifting_scoring = 25 / 3 \<and>
   \<not> isDrifting banked_scoring \<and> currentScore banked_scoring = 0"
proof -
  have r1: "reachable any_call empty_partial drifting_scoring"
    unfolding drifting_scoring_def by (intro r_update r_new) (simp add: any_call_def)
  have r: "reachable any_call empty_partial banked_scoring"
    unfolding banked_scoring_def using r1 by (rule r_update) (simp add: any_call_def)
  have idle: "\<not> isDrifting banked_scoring" by (rule banked_scoring_fields(1))
  from idle_currentScore_zero [OF r] idle have "currentScore banked_scoring = 0" by blast
  then show ?thesis
    using r idle drifting_scoring_fields(1,2) by blast
qed

section \<open>Too slow: the drift fails\<close>

text \<open>C5: an \<open>update\<close> with \<open>|speed| < minSpeed\<close>, while drifting or holding a positive
  current score, ends the drift without banking: the machine is idle afterwards
  (\<open>isDrifting = false\<close>, \<open>currentScore = 0\<close>, \<open>combo = 0\<close>) and \<open>totalScore\<close> is what it was.\<close>

theorem slow_ends_drift_without_banking:
  assumes "\<bar>speed cs\<bar> < minSpeed (config d)"
      and "isDrifting d \<or> currentScore d > 0"
  shows "\<not> isDrifting (update d cs m dt) \<and> currentScore (update d cs m dt) = 0 \<and>
         combo (update d cs m dt) = 0 \<and> totalScore (update d cs m dt) = totalScore d"
  using assms by (simp add: update_def Let_def endDrift_def)

theorem slow_ends_drift_without_banking_witness:
  "\<bar>speed ((car new_Game)\<lparr>speed := 1\<rparr>)\<bar>
     < minSpeed (config ((new_DriftScoring empty_partial)
         \<lparr>isDrifting := True, currentScore := 120, totalScore := 40, combo := 1\<rparr>)) \<and>
   isDrifting ((new_DriftScoring empty_partial)
         \<lparr>isDrifting := True, currentScore := 120, totalScore := 40, combo := 1\<rparr>) \<and>
   totalScore (update ((new_DriftScoring empty_partial)
         \<lparr>isDrifting := True, currentScore := 120, totalScore := 40, combo := 1\<rparr>)
       ((car new_Game)\<lparr>speed := 1\<rparr>) 1 (1 / 60)) = 40 \<and>
   currentScore (update ((new_DriftScoring empty_partial)
         \<lparr>isDrifting := True, currentScore := 120, totalScore := 40, combo := 1\<rparr>)
       ((car new_Game)\<lparr>speed := 1\<rparr>) 1 (1 / 60)) = 0"
  using slow_ends_drift_without_banking
    [of "(car new_Game)\<lparr>speed := 1\<rparr>"
        "(new_DriftScoring empty_partial)
           \<lparr>isDrifting := True, currentScore := 120, totalScore := 40, combo := 1\<rparr>"
        1 "1 / 60"]
  by (simp add: new_DriftScoring_def empty_partial_def or_default_def new_Game_def)

section \<open>Scores never go down\<close>

lemma chain_nonneg:
  assumes "0 \<le> currentScore d" and "1 \<le> combo d"
  shows "0 \<le> currentScore (chain dir d) \<and> 1 \<le> combo (chain dir d)"
  using assms by (simp add: chain_def Let_def)

lemma accrue_nonneg:
  assumes "0 \<le> currentScore d" and "1 \<le> combo d"
      and "0 \<le> basePointsPerSecond (config d)" and "0 \<le> comboBonus (config d)"
      and "1 \<le> m" and "0 \<le> dt"
  shows "0 \<le> currentScore (accrue a m dt d)"
proof -
  have cm: "0 \<le> 1 + (of_int (combo d) - 1) * comboBonus (config d)"
    using assms(2,4) by simp
  have ab: "0 \<le> max 1 (a / 30)" by simp
  have "0 \<le> basePointsPerSecond (config d) * m
            * (1 + (of_int (combo d) - 1) * comboBonus (config d)) * max 1 (a / 30) * dt"
    using assms(3,5,6) cm ab by (intro mult_nonneg_nonneg) simp_all
  then show ?thesis using assms(1) by (simp add: accrue_def Let_def)
qed

lemma update_keeps_scores_ok:
  assumes ok: "scores_ok d"
      and cfg: "0 \<le> basePointsPerSecond (config d)" "0 \<le> comboBonus (config d)"
      and call: "1 \<le> m" "0 \<le> dt"
  shows "scores_ok (update d cs m dt)"
proof -
  let ?d = "d\<lparr>isInClippingZone := 1 < m\<rparr>"
  let ?dir = "sgn (driftAngle cs)"
  let ?d1 = "if \<not> isDrifting ?d then (startDrift ?d)\<lparr>lastDriftDir := ?dir\<rparr> else ?d"
  have s: "0 \<le> currentScore d" "0 \<le> totalScore d" "isDrifting d \<Longrightarrow> 1 \<le> combo d"
    using ok by (simp_all add: scores_ok_def)
  have d1: "0 \<le> currentScore ?d1 \<and> 1 \<le> combo ?d1 \<and> isDrifting ?d1 \<and>
            totalScore ?d1 = totalScore d \<and> config ?d1 = config d"
    using s by (simp add: startDrift_def)
  have ch: "0 \<le> currentScore (chain ?dir ?d1) \<and> 1 \<le> combo (chain ?dir ?d1)"
    using d1 by (intro chain_nonneg) simp_all
  have chf: "isDrifting (chain ?dir ?d1) \<and> totalScore (chain ?dir ?d1) = totalScore d \<and>
             config (chain ?dir ?d1) = config d"
    using d1 chain_fields [of ?dir ?d1] by simp
  have acc: "scores_ok (accrue (angleDeg cs) m dt (chain ?dir ?d1))"
    unfolding scores_ok_def
    using accrue_nonneg [of "chain ?dir ?d1" m dt "angleDeg cs"] ch chf cfg call s(2)
          accrue_fields [of "angleDeg cs" m dt "chain ?dir ?d1"]
          accrue_drifting [of "angleDeg cs" m dt "chain ?dir ?d1"]
    by simp
  have fl: "0 \<le> totalScore d + of_int \<lfloor>currentScore d\<rfloor>"
    using s(1,2) by simp
  have e: "scores_ok (endDrift b (?d\<lparr>comboTimer := t\<rparr>))" "scores_ok (endDrift b ?d)" for b t
    using fl s(2) by (simp_all add: scores_ok_def endDrift_def Let_def)
  have k: "scores_ok (?d\<lparr>comboTimer := t\<rparr>)" "scores_ok ?d" for t
    using ok by (simp_all add: scores_ok_def)
  show ?thesis
    unfolding update_def Let_def using acc e k by (simp split: if_splits)
qed

lemma reachable_scores_ok:
  assumes "reachable scoring_call c d"
      and "0 \<le> basePointsPerSecond (config (new_DriftScoring c))"
      and "0 \<le> comboBonus (config (new_DriftScoring c))"
  shows "scores_ok d"
  using assms
proof (induction rule: reachable.induct)
  case r_new
  show ?case by (simp add: scores_ok_def new_DriftScoring_def)
next
  case (r_update d m dt cs)
  have "config d = config (new_DriftScoring c)"
    using r_update.hyps(1) by (rule reachable_config)
  then show ?case
    using r_update by (intro update_keeps_scores_ok) (simp_all add: scoring_call_def)
next
  case (r_reset d)
  then show ?case by (simp add: scores_ok_def resetTotal_def)
qed

lemma update_total:
  "totalScore (update d cs m dt) = totalScore d \<or>
   (isDrifting d \<and> \<not> isDrifting (update d cs m dt) \<and>
    totalScore (update d cs m dt) = totalScore d + of_int \<lfloor>currentScore d\<rfloor>)"
  unfolding update_def Let_def
  by (simp add: endDrift_total endDrift_idle accrue_fields chain_fields startDrift_def)

text \<open>C4: with a clipping multiplier of at least 1 and a tick length that is not negative
  (and the base points and combo bonus of the configuration not negative, as the
  defaults are), \<open>update\<close> never lowers \<open>totalScore\<close>: it leaves it alone or, when a drift
  ends with banking, adds \<open>floor(currentScore)\<close>; a positive total stays positive under
  \<open>update\<close>, and \<open>resetTotal\<close> sets it to 0.\<close>

theorem totalScore_non_decreasing:
  assumes "reachable scoring_call c d"
      and "0 \<le> basePointsPerSecond (config (new_DriftScoring c))"
      and "0 \<le> comboBonus (config (new_DriftScoring c))"
      and "1 \<le> m" and "0 \<le> dt"
  shows "totalScore d \<le> totalScore (update d cs m dt) \<and>
         (totalScore (update d cs m dt) = totalScore d \<or>
          (isDrifting d \<and> \<not> isDrifting (update d cs m dt) \<and>
           totalScore (update d cs m dt) = totalScore d + of_int \<lfloor>currentScore d\<rfloor>)) \<and>
         (0 < totalScore d \<longrightarrow> 0 < totalScore (update d cs m dt)) \<and>
         totalScore (resetTotal d) = 0"
proof -
  have "scores_ok d" using assms(1-3) by (rule reachable_scores_ok)
  then have "0 \<le> currentScore d" by (simp add: scores_ok_def)
  then have fl: "(0::real) \<le> of_int \<lfloor>currentScore d\<rfloor>" by simp
  have le: "totalScore d \<le> totalScore (update d cs m dt)"
    using update_total [of d cs m dt] fl by auto
  show ?thesis using le update_total [of d cs m dt] by (simp add: resetTotal_def)
qed

theorem totalScore_non_decreasing_witness:
  "reachable scoring_call empty_partial drifting_scoring \<and>
   isDrifting drifting_scoring \<and> currentScore drifting_scoring = 25 / 3 \<and>
   totalScore drifting_scoring = 0 \<and>
   totalScore drifting_scoring \<le> totalScore (update drifting_scoring straight_car 1 3) \<and>
   totalScore (update drifting_scoring straight_car 1 3) = 8 \<and>
   \<not> isDrifting (update drifting_scoring straight_car 1 3) \<and>
   totalScore (resetTotal drifting_scoring) = 0"
proof -
  have r: "reachable scoring_call empty_partial drifting_scoring"
    unfolding drifting_scoring_def by (intro r_update r_new) (simp add: scoring_call_def)
  have b: "0 \<le> basePointsPerSecond (config (new_DriftScoring empty_partial))"
          "0 \<le> comboBonus (config (new_DriftScoring empty_partial))"
    by (simp_all add: default_config)
  have c: "(1::real) \<le> 1" "(0::real) \<le> 3" by simp_all
  note t = totalScore_non_decreasing [OF r b c, of straight_car]
  have le: "totalScore drifting_scoring \<le> totalScore (update drifting_scoring straight_car 1 3)"
    using t by (simp only:)
  have z: "totalScore (resetTotal drifting_scoring) = 0"
    using t by (simp only:)
  have e1: "totalScore (update drifting_scoring straight_car 1 3) = 8"
    using banked_scoring_fields(3) unfolding banked_scoring_def .
  have e2: "\<not> isDrifting (update drifting_scoring straight_car 1 3)"
    using banked_scoring_fields(1) unfolding banked_scoring_def .
  show ?thesis
    using r le z e1 e2 drifting_scoring_fields(1,2,3) by blast
qed

section \<open>The angle the scoring compares\<close>

lemma angleDeg_eq: "angleDeg cs = \<bar>driftAngle cs\<bar> * (180 / pi)"
  by (simp add: angleDeg_def abs_mult)

text \<open>C2, evaluated on the code: a car at speed 4 with a drift angle of 1 degree, on a
  fresh scoring object with the default threshold of 15. \<open>|driftAngle| = 1\<close> is below the
  threshold, yet \<open>update\<close> compares \<open>|driftAngle * (180 / \<pi>)|\<close>, about 57.3, and starts a
  drift that scores.\<close>

theorem update_scales_degrees:
  "\<bar>driftAngle ((car new_Game)\<lparr>speed := 4, driftAngle := 1\<rparr>)\<bar>
     < minDriftAngle (config (new_DriftScoring empty_partial)) \<and>
   angleDeg ((car new_Game)\<lparr>speed := 4, driftAngle := 1\<rparr>) = 180 / pi \<and>
   angleDeg ((car new_Game)\<lparr>speed := 4, driftAngle := 1\<rparr>)
     \<noteq> \<bar>driftAngle ((car new_Game)\<lparr>speed := 4, driftAngle := 1\<rparr>)\<bar> \<and>
   isDrifting (update (new_DriftScoring empty_partial)
                 ((car new_Game)\<lparr>speed := 4, driftAngle := 1\<rparr>) 1 (1 / 60)) \<and>
   0 < currentScore (update (new_DriftScoring empty_partial)
                 ((car new_Game)\<lparr>speed := 4, driftAngle := 1\<rparr>) 1 (1 / 60))"
proof -
  let ?cs = "(car new_Game)\<lparr>speed := 4, driftAngle := 1\<rparr>"
  have a: "angleDeg ?cs = 180 / pi" by (simp add: angleDeg_def)
  have "15 * pi < 180" using pi_less_4 by simp
  then have big: "15 < 180 / pi" by (simp add: pos_less_divide_eq)
  have ne: "180 / pi \<noteq> (1::real)" using big by linarith
  have m: "max 1 (180 / pi / 30) > 0" by simp
  have cfg: "minDriftAngle (config (new_DriftScoring empty_partial)) = 15"
            "minSpeed (config (new_DriftScoring empty_partial)) = 3"
    by (simp_all add: new_DriftScoring_def empty_partial_def or_default_def)
  have u: "update (new_DriftScoring empty_partial) ?cs 1 (1 / 60) =
           accrue (180 / pi) 1 (1 / 60)
             (chain 1 ((startDrift ((new_DriftScoring empty_partial)\<lparr>isInClippingZone := False\<rparr>))
                         \<lparr>lastDriftDir := 1\<rparr>))"
    using big by (simp add: update_def Let_def a cfg) (simp add: new_DriftScoring_def)
  have d: "isDrifting (update (new_DriftScoring empty_partial) ?cs 1 (1 / 60))"
    unfolding u by (simp add: accrue_drifting chain_fields startDrift_def)
  have c: "0 < currentScore (update (new_DriftScoring empty_partial) ?cs 1 (1 / 60))"
    unfolding u using m
    by (simp add: accrue_def chain_def startDrift_def Let_def new_DriftScoring_def
        empty_partial_def or_default_def)
  show ?thesis using a ne d c cfg by simp
qed

section \<open>Full throttle from rest\<close>

lemma wrapBounds_keeps:
  "speed (wrapBounds w h c) = speed c \<and> driftAngle (wrapBounds w h c) = driftAngle c \<and>
   angularVelocity (wrapBounds w h c) = angularVelocity c"
  by (simp add: wrapBounds_def Let_def)

lemma velocity_keeps:
  "speed (velocity inp c) = speed c \<and> driftAngle (velocity inp c) = driftAngle c \<and>
   angularVelocity (velocity inp c) = angularVelocity c"
  by (simp add: velocity_def Let_def)

lemma friction_straight:
  assumes "\<not> eBrake inp" and "driftAngle c = 0"
  shows "speed (friction p inp c) = speed c * (98 / 100) \<and> driftAngle (friction p inp c) = 0 \<and>
         angularVelocity (friction p inp c) = angularVelocity c"
  using assms by (simp add: friction_def Let_def)

lemma driftPhysics_straight:
  assumes "driftAngle c = 0" and "angularVelocity c = 0"
  shows "speed (driftPhysics p c) = speed c \<and> driftAngle (driftPhysics p c) = 0 \<and>
         angularVelocity (driftPhysics p c) = 0"
  using assms by (simp add: driftPhysics_def Let_def)

lemma turning_straight:
  assumes "\<not> left inp" and "\<not> right inp"
  shows "turning p inp c = c"
  using assms by (simp add: turning_def Let_def)

lemma accelerate_throttle:
  assumes "up inp" and "\<not> eBrake inp" and "\<not> down inp"
  shows "speed (accelerate p inp c)
           = (if speed c < maxSpeed p then speed c + accelerationFactor p else speed c) \<and>
         driftAngle (accelerate p inp c) = driftAngle c \<and>
         angularVelocity (accelerate p inp c) = angularVelocity c"
  using assms by (simp add: accelerate_def Let_def)

lemma physicsStep_straight:
  assumes inp: "up inp" "\<not> eBrake inp" "\<not> down inp" "\<not> left inp" "\<not> right inp"
      and c: "driftAngle c = 0" "angularVelocity c = 0"
  shows "speed (physicsStep p inp w h c)
           = (if speed c < maxSpeed p then speed c + accelerationFactor p else speed c) * (98 / 100)"
    and "driftAngle (physicsStep p inp w h c) = 0"
    and "angularVelocity (physicsStep p inp w h c) = 0"
proof -
  let ?a = "accelerate p inp c"
  note a = accelerate_throttle [OF inp(1,2,3), of p c]
  have t: "turning p inp ?a = ?a" using inp(4,5) by (rule turning_straight)
  have a0: "driftAngle ?a = 0" "angularVelocity ?a = 0" using a c by simp_all
  note d = driftPhysics_straight [OF a0, of p]
  have d0: "driftAngle (driftPhysics p ?a) = 0" using d by simp
  note f = friction_straight [OF inp(2) d0, of p]
  show "speed (physicsStep p inp w h c)
           = (if speed c < maxSpeed p then speed c + accelerationFactor p else speed c) * (98 / 100)"
    unfolding physicsStep_def t using a d f by (simp add: wrapBounds_keeps velocity_keeps)
  show "driftAngle (physicsStep p inp w h c) = 0"
    unfolding physicsStep_def t using f by (simp add: wrapBounds_keeps velocity_keeps)
  show "angularVelocity (physicsStep p inp w h c) = 0"
    unfolding physicsStep_def t using d f by (simp add: wrapBounds_keeps velocity_keeps)
qed

lemma car_liveTick:
  "car (liveTick t gm) =
     physicsStep (params t) (inputState t) (worldWidth t) (worldHeight t) (car gm)"
  by (simp add: liveTick_def Let_def)

lemma liveTick_throttle:
  assumes t: "inputState t = input_up" "maxSpeed (params t) = 5"
             "accelerationFactor (params t) = 1 / 10"
      and c: "driftAngle (car gm) = 0" "angularVelocity (car gm) = 0"
             "0 \<le> speed (car gm)" "speed (car gm) < 49 / 10"
  shows "speed (car (liveTick t gm)) = (speed (car gm) + 1 / 10) * (98 / 100)"
    and "driftAngle (car (liveTick t gm)) = 0"
    and "angularVelocity (car (liveTick t gm)) = 0"
proof -
  have i: "up (inputState t)" "\<not> eBrake (inputState t)" "\<not> down (inputState t)"
          "\<not> left (inputState t)" "\<not> right (inputState t)"
    by (simp_all add: t(1) input_up_def)
  note st = physicsStep_straight [OF i c(1,2)]
  show "speed (car (liveTick t gm)) = (speed (car gm) + 1 / 10) * (98 / 100)"
    using c(4) by (simp add: car_liveTick st(1) t(2,3))
  show "driftAngle (car (liveTick t gm)) = 0" by (simp add: car_liveTick st(2))
  show "angularVelocity (car (liveTick t gm)) = 0" by (simp add: car_liveTick st(3))
qed

lemma runLive_throttle:
  assumes "\<forall>t\<in>set ts. inputState t = input_up \<and> maxSpeed (params t) = 5 \<and>
                      accelerationFactor (params t) = 1 / 10"
      and "driftAngle (car gm) = 0" and "angularVelocity (car gm) = 0"
      and "0 \<le> speed (car gm)" and "speed (car gm) < 49 / 10"
  shows "speed (car (runLive ts gm))
           = 49 / 10 - (49 / 10 - speed (car gm)) * (98 / 100) ^ length ts"
  using assms
proof (induction ts arbitrary: gm)
  case Nil
  then show ?case by simp
next
  case (Cons t ts)
  have t: "inputState t = input_up" "maxSpeed (params t) = 5"
          "accelerationFactor (params t) = 1 / 10"
    using Cons.prems(1) by simp_all
  note lt = liveTick_throttle [OF t Cons.prems(2,3,4,5)]
  have nn: "0 \<le> speed (car (liveTick t gm))" using Cons.prems(4) by (simp add: lt(1))
  have lt49: "speed (car (liveTick t gm)) < 49 / 10" using Cons.prems(5) by (simp add: lt(1))
  have ih: "speed (car (runLive ts (liveTick t gm)))
          = 49 / 10 - (49 / 10 - speed (car (liveTick t gm))) * (98 / 100) ^ length ts"
    using Cons.prems(1) lt(2,3) nn lt49 by (intro Cons.IH) simp_all
  define q :: real where "q = (98 / 100) ^ length ts"
  define s0 where "s0 = speed (car gm)"
  have "49 / 10 - (49 / 10 - (s0 + 1 / 10) * (98 / 100)) * q
          = 49 / 10 - (49 / 10 - s0) * ((98 / 100) * q)"
    by (simp add: field_simps)
  then show ?case
    using ih by (simp add: lt(1) q_def s0_def)
qed

text \<open>C1, as the code has it: from rest (\<open>speed = 0\<close>, \<open>driftAngle = 0\<close>,
  \<open>angularVelocity = 0\<close>), with \<open>accelerationFactor = 0.1\<close> and \<open>maxSpeed = 5\<close>, holding
  \<open>{up: true}\<close> alone for \<open>n\<close> live ticks gives \<open>speed = 4.9 * (1 - 0.98 ^ n)\<close>: every tick
  adds 0.1 and then the drag of 0.98 applies, so the speed stays below 4.9 and the cap of
  5 is never reached.\<close>

theorem throttle_speed_from_rest:
  assumes "\<forall>t\<in>set ts. inputState t = input_up \<and> maxSpeed (params t) = 5 \<and>
                      accelerationFactor (params t) = 1 / 10"
      and "speed (car gm) = 0" and "driftAngle (car gm) = 0" and "angularVelocity (car gm) = 0"
  shows "speed (car (runLive ts gm)) = 49 / 10 * (1 - (98 / 100) ^ length ts) \<and>
         speed (car (runLive ts gm)) < 49 / 10"
proof -
  have e: "speed (car (runLive ts gm))
             = 49 / 10 - (49 / 10 - speed (car gm)) * (98 / 100) ^ length ts"
    using assms by (intro runLive_throttle) simp_all
  define q :: real where "q = (98 / 100) ^ length ts"
  have q: "0 < q" by (simp add: q_def)
  have s: "speed (car (runLive ts gm)) = 49 / 10 - 49 / 10 * q"
    using e assms(2) by (simp add: q_def)
  have "49 / 10 - 49 / 10 * q = 49 / 10 * (1 - q)"
    by (simp only: right_diff_distrib mult_1_right)
  then have eq: "speed (car (runLive ts gm)) = 49 / 10 * (1 - q)"
    using s by (simp only:)
  have "0 < 49 / 10 * q" using q by simp
  then have "speed (car (runLive ts gm)) < 49 / 10" using s by linarith
  then show ?thesis using eq by (simp only: q_def simp_thms)
qed

theorem throttle_speed_from_rest_witness:
  "speed (car (runLive (replicate 50 tick_up) new_Game)) = 49 / 10 * (1 - (98 / 100) ^ 50) \<and>
   speed (car (runLive (replicate 50 tick_up) new_Game)) < 49 / 10"
proof -
  have h: "\<forall>t\<in>set (replicate 50 tick_up). inputState t = input_up \<and>
             maxSpeed (params t) = 5 \<and> accelerationFactor (params t) = 1 / 10"
    by (simp add: tick_up_def DEFAULT_PARAMS_def)
  have c: "speed (car new_Game) = 0" "driftAngle (car new_Game) = 0"
          "angularVelocity (car new_Game) = 0"
    by (simp_all add: new_Game_def)
  from throttle_speed_from_rest [OF h c] show ?thesis
    unfolding length_replicate .
qed

text \<open>After 50 such ticks the speed is not 5.\<close>

theorem speed_after_50_ticks_not_capped:
  "speed (car (runLive (replicate 50 tick_up) new_Game)) \<noteq> 5"
proof -
  have h: "\<forall>t\<in>set (replicate 50 tick_up). inputState t = input_up \<and>
             maxSpeed (params t) = 5 \<and> accelerationFactor (params t) = 1 / 10"
    by (simp add: tick_up_def DEFAULT_PARAMS_def)
  have c: "driftAngle (car new_Game) = 0" "angularVelocity (car new_Game) = 0"
          "0 \<le> speed (car new_Game)" "speed (car new_Game) < 49 / 10"
    by (simp_all add: new_Game_def)
  have z: "speed (car new_Game) = 0" by (simp add: new_Game_def)
  have "speed (car (runLive (replicate 50 tick_up) new_Game))
          = 49 / 10 - (49 / 10 - speed (car new_Game)) * (98 / 100) ^ length (replicate 50 tick_up)"
    using h c by (rule runLive_throttle)
  then have "speed (car (runLive (replicate 50 tick_up) new_Game))
               = 49 / 10 - (49 / 10 - 0) * (98 / 100) ^ 50"
    by (simp only: z length_replicate)
  moreover have "(0::real) < (49 / 10 - 0) * (98 / 100) ^ 50" by simp
  ultimately show ?thesis by linarith
qed

section \<open>The replay buffer\<close>

lemma push_bounded_short:
  "length buf < REPLAY_MAX_FRAMES \<Longrightarrow> push_bounded x buf = buf @ [x]"
  by (simp add: push_bounded_def Let_def)

lemma push_bounded_full:
  "length buf = REPLAY_MAX_FRAMES \<Longrightarrow> push_bounded x buf = tl buf @ [x]"
  by (cases buf) (simp_all add: push_bounded_def Let_def REPLAY_MAX_FRAMES_def)

lemma replayData_liveTick:
  "replayData (liveTick t gm) = push_bounded (car (liveTick t gm)) (replayData gm)"
  by (simp add: liveTick_def Let_def)

lemma runLive_replayData:
  "length (replayData gm) \<le> REPLAY_MAX_FRAMES \<Longrightarrow>
   replayData (runLive ts gm)
     = drop (length (replayData gm) + length ts - REPLAY_MAX_FRAMES)
            (replayData gm @ recorded ts gm)"
proof (induction ts arbitrary: gm)
  case Nil
  then show ?case by simp
next
  case (Cons t ts)
  let ?g = "liveTick t gm"
  let ?c = "car ?g"
  show ?case
  proof (cases "length (replayData gm) < REPLAY_MAX_FRAMES")
    case True
    then have b: "replayData ?g = replayData gm @ [?c]"
      by (simp add: replayData_liveTick push_bounded_short)
    then have "length (replayData ?g) \<le> REPLAY_MAX_FRAMES" using True by simp
    from Cons.IH [OF this] show ?thesis by (simp add: b)
  next
    case False
    then have full: "length (replayData gm) = REPLAY_MAX_FRAMES" using Cons.prems by simp
    then have ne: "replayData gm \<noteq> []" by (auto simp: REPLAY_MAX_FRAMES_def)
    have b: "replayData ?g = tl (replayData gm) @ [?c]"
      using full by (simp add: replayData_liveTick push_bounded_full)
    have len: "length (replayData ?g) = REPLAY_MAX_FRAMES" unfolding b using full ne by (cases "replayData gm") simp_all
    then have "length (replayData ?g) \<le> REPLAY_MAX_FRAMES" by simp
    from Cons.IH [OF this]
    have ih: "replayData (runLive ts ?g)
                = drop (length (replayData ?g) + length ts - REPLAY_MAX_FRAMES)
                       (replayData ?g @ recorded ts ?g)" .
    have idx: "length (replayData ?g) + length ts - REPLAY_MAX_FRAMES = length ts"
      by (simp only: len add_diff_cancel_left')
    have app: "replayData ?g @ recorded ts ?g = tl (replayData gm @ ?c # recorded ts ?g)"
      unfolding b using ne by (cases "replayData gm") simp_all
    have "replayData (runLive (t # ts) gm)
            = drop (length ts) (tl (replayData gm @ ?c # recorded ts ?g))"
      using ih by (simp only: runLive.simps idx app)
    also have "\<dots> = drop (Suc (length ts)) (replayData gm @ ?c # recorded ts ?g)"
      by (simp only: drop_Suc)
    also have "Suc (length ts) = length (replayData gm) + length (t # ts) - REPLAY_MAX_FRAMES"
      by (simp add: full)
    finally show ?thesis by (simp only: recorded.simps)
  qed
qed

lemma length_recorded: "length (recorded ts gm) = length ts"
  by (induction ts arbitrary: gm) simp_all

lemma recorded_nth:
  "k < length ts \<Longrightarrow> recorded ts gm ! k = car (runLive (take (Suc k) ts) gm)"
proof (induction ts arbitrary: gm k)
  case Nil
  then show ?case by simp
next
  case (Cons t ts)
  then show ?case by (cases k) simp_all
qed

text \<open>C6: starting from an empty buffer, the replay buffer never holds more than 1800
  entries after any number of live ticks; after exactly 1801 live ticks it holds 1800 and
  its first entry is the car state recorded by the second tick.\<close>

theorem replay_buffer_bounded:
  assumes "replayData gm = []"
  shows "length (replayData (runLive ts gm)) \<le> 1800 \<and>
         (length ts = 1801 \<longrightarrow>
            length (replayData (runLive ts gm)) = 1800 \<and>
            hd (replayData (runLive ts gm)) = car (runLive (take 2 ts) gm))"
proof -
  have e: "replayData (runLive ts gm) = drop (length ts - 1800) (recorded ts gm)"
    using runLive_replayData [of gm ts] assms by (simp add: REPLAY_MAX_FRAMES_def)
  have le: "length (replayData (runLive ts gm)) \<le> 1800"
    by (simp add: e length_recorded)
  have "length (replayData (runLive ts gm)) = 1800 \<and>
        hd (replayData (runLive ts gm)) = car (runLive (take 2 ts) gm)"
    if n: "length ts = 1801"
  proof -
    have d: "replayData (runLive ts gm) = drop 1 (recorded ts gm)"
      using e n by simp
    have l: "length (replayData (runLive ts gm)) = 1800"
      by (simp add: d length_recorded n)
    have "hd (drop 1 (recorded ts gm)) = recorded ts gm ! 1"
      by (rule hd_drop_conv_nth) (simp add: length_recorded n)
    also have "\<dots> = car (runLive (take (Suc 1) ts) gm)"
      by (rule recorded_nth) (simp add: n)
    finally show ?thesis using l d by (simp add: numeral_2_eq_2)
  qed
  then show ?thesis using le by simp
qed

theorem replay_buffer_bounded_witness:
  "length (replayData (runLive (replicate 1801 tick_up) new_Game)) = 1800 \<and>
   hd (replayData (runLive (replicate 1801 tick_up) new_Game))
     = car (runLive (take 2 (replicate 1801 tick_up)) new_Game)"
proof -
  have h: "replayData new_Game = []" by (simp add: new_Game_def)
  have n: "length (replicate 1801 tick_up) = 1801" by (rule length_replicate)
  from replay_buffer_bounded [OF h, of "replicate 1801 tick_up"] show ?thesis
    unfolding n by (simp only: simp_thms)
qed

section \<open>Replay playback\<close>

lemma replayTick_nonempty:
  assumes "replayData gm \<noteq> []"
      and "0 \<le> index (replayState gm)"
      and "index (replayState gm) < real (length (replayData gm))"
      and "0 \<le> speed_replay (replayState gm)"
  shows "index (replayState (replayTick gm))
           = (if isPlaying (replayState gm)
              then (if index (replayState gm) + speed_replay (replayState gm)
                         \<ge> real (length (replayData gm))
                    then 0
                    else index (replayState gm) + speed_replay (replayState gm))
              else index (replayState gm)) \<and>
         car (replayTick gm) = replayData gm ! nat \<lfloor>index (replayState (replayTick gm))\<rfloor> \<and>
         0 \<le> index (replayState (replayTick gm)) \<and>
         index (replayState (replayTick gm)) < real (length (replayData gm))"
proof -
  let ?n = "length (replayData gm)"
  let ?st = "replayState gm"
  define i where "i = (if isPlaying ?st
            then (if index ?st + speed_replay ?st \<ge> real ?n then 0
                  else index ?st + speed_replay ?st)
            else index ?st)"
  have n: "?n \<noteq> 0" using assms(1) by simp
  have i0: "0 \<le> i" using assms(2,4) by (simp add: i_def)
  have i1: "i < real ?n" using assms(1,3) by (simp add: i_def)
  have f0: "0 \<le> \<lfloor>i\<rfloor>" using i0 by simp
  have "\<lfloor>i\<rfloor> < int ?n" using i1 by (simp add: floor_less_iff)
  then have f1: "nat \<lfloor>i\<rfloor> < ?n" using f0 by linarith
  have idx: "index (replayState (replayTick gm)) = i"
    using n by (simp add: replayTick_def Let_def i_def)
  have "car (replayTick gm)
          = (if 0 \<le> \<lfloor>index (replayState (replayTick gm))\<rfloor> \<and>
                nat \<lfloor>index (replayState (replayTick gm))\<rfloor> < ?n
             then replayData gm ! nat \<lfloor>index (replayState (replayTick gm))\<rfloor>
             else car gm)"
    using n by (simp add: replayTick_def Let_def)
  then have c: "car (replayTick gm) = replayData gm ! nat \<lfloor>i\<rfloor>"
    unfolding idx using f0 f1 by simp
  have "index (replayState (replayTick gm)) = i \<and>
        car (replayTick gm) = replayData gm ! nat \<lfloor>index (replayState (replayTick gm))\<rfloor> \<and>
        0 \<le> index (replayState (replayTick gm)) \<and>
        index (replayState (replayTick gm)) < real ?n"
    using idx c i0 i1 by simp
  then show ?thesis unfolding i_def .
qed

lemma replayTick_empty: "replayData gm = [] \<Longrightarrow> replayTick gm = gm"
  by (simp add: replayTick_def Let_def)

lemma replayTick_frame:
  "replayData (replayTick gm) = replayData gm \<and>
   isPlaying (replayState (replayTick gm)) = isPlaying (replayState gm) \<and>
   speed_replay (replayState (replayTick gm)) = speed_replay (replayState gm)"
  by (simp add: replayTick_def Let_def)

text \<open>C7: in replay mode, with a playhead that is not negative and lies inside the buffer
  (or is 0 on an empty buffer) and a speed that is not negative: while playing, a tick
  sets \<open>index\<close> to \<open>index + speed\<close>, or to 0 when that reaches or exceeds the buffer length;
  while paused, \<open>index\<close> stays; in both cases the car becomes the buffer entry at
  \<open>floor(index)\<close> of the new \<open>index\<close> (when the buffer has entries), and the playhead stays
  inside the buffer.\<close>

theorem replay_playhead:
  assumes "0 \<le> index (replayState gm)"
      and "index (replayState gm) = 0 \<or> index (replayState gm) < real (length (replayData gm))"
      and "0 \<le> speed_replay (replayState gm)"
  shows "index (replayState (replayTick gm))
           = (if isPlaying (replayState gm)
              then (if index (replayState gm) + speed_replay (replayState gm)
                         \<ge> real (length (replayData gm))
                    then 0
                    else index (replayState gm) + speed_replay (replayState gm))
              else index (replayState gm)) \<and>
         (replayData gm \<noteq> [] \<longrightarrow>
            car (replayTick gm)
              = replayData gm ! nat \<lfloor>index (replayState (replayTick gm))\<rfloor>) \<and>
         0 \<le> index (replayState (replayTick gm)) \<and>
         (index (replayState (replayTick gm)) = 0 \<or>
          index (replayState (replayTick gm)) < real (length (replayData gm))) \<and>
         replayData (replayTick gm) = replayData gm \<and>
         isPlaying (replayState (replayTick gm)) = isPlaying (replayState gm) \<and>
         speed_replay (replayState (replayTick gm)) = speed_replay (replayState gm)"
proof (cases "replayData gm = []")
  case True
  then have z: "index (replayState gm) = 0" using assms(1,2) by auto
  show ?thesis
    using True z assms(3) by (simp add: replayTick_empty)
next
  case False
  then have lt: "index (replayState gm) < real (length (replayData gm))"
    using assms(2) by auto
  from replayTick_nonempty [OF False assms(1) lt assms(3)] replayTick_frame [of gm] False
  show ?thesis by simp
qed

theorem replay_playhead_witness:
  "index (replayState (replayTick (replay_game 2 True 2))) = 0 \<and>
   car (replayTick (replay_game 2 True 2)) = frame_at 10 \<and>
   index (replayState (replayTick (replay_game (3 / 2) False 1))) = 3 / 2 \<and>
   car (replayTick (replay_game (3 / 2) False 1)) = frame_at 20"
proof -
  let ?g = "replay_game 2 True 2"
  have hg: "0 \<le> index (replayState ?g)"
           "index (replayState ?g) = 0 \<or> index (replayState ?g) < real (length (replayData ?g))"
           "0 \<le> speed_replay (replayState ?g)"
    by (simp_all add: replay_game_def)
  have ng: "replayData ?g \<noteq> []" by (simp add: replay_game_def)
  note pg = replay_playhead [OF hg]
  have ig: "index (replayState (replayTick ?g)) = 0"
    using pg by (simp add: replay_game_def)
  have "car (replayTick ?g) = replayData ?g ! nat \<lfloor>index (replayState (replayTick ?g))\<rfloor>"
    using pg ng by (simp only: simp_thms)
  then have cg: "car (replayTick ?g) = frame_at 10"
    unfolding ig by (simp add: replay_game_def)
  let ?p = "replay_game (3 / 2) False 1"
  have hp: "0 \<le> index (replayState ?p)"
           "index (replayState ?p) = 0 \<or> index (replayState ?p) < real (length (replayData ?p))"
           "0 \<le> speed_replay (replayState ?p)"
    by (simp_all add: replay_game_def)
  have np: "replayData ?p \<noteq> []" by (simp add: replay_game_def)
  note pp = replay_playhead [OF hp]
  have ip: "index (replayState (replayTick ?p)) = 3 / 2"
    using pp by (simp add: replay_game_def)
  have fl: "nat \<lfloor>3 / 2 :: real\<rfloor> = 1"
  proof -
    have "\<lfloor>3 / 2 :: real\<rfloor> = 1" by (simp add: floor_eq_iff)
    then show ?thesis by simp
  qed
  have "car (replayTick ?p) = replayData ?p ! nat \<lfloor>index (replayState (replayTick ?p))\<rfloor>"
    using pp np by (simp only: simp_thms)
  then have cp: "car (replayTick ?p) = frame_at 20"
    unfolding ip fl by (simp add: replay_game_def)
  show ?thesis using ig cg ip cp by (simp only: simp_thms)
qed

section \<open>The stored ghost run\<close>

lemma ghostRun_handleClear: "ghostRun (handleClear md z w h gm) = ghostLogic gm"
  by (simp add: handleClear_def Let_def)

lemma ghostRun_liveTick: "ghostRun (liveTick t gm) = ghostRun gm"
  by (simp add: liveTick_def Let_def)

lemma ghostRun_replayTick: "ghostRun (replayTick gm) = ghostRun gm"
  by (simp add: replayTick_def Let_def)

lemma ghostRun_updatePhysics: "ghostRun (updatePhysics t gm) = ghostRun gm"
  by (simp add: updatePhysics_def ghostRun_liveTick ghostRun_replayTick)

lemma ghostLogic_replace:
  assumes "currentRun gm \<noteq> []"
  shows "ghostLogic gm
           = (if ghostRun gm = None \<or> ghost_totalScore (the (ghostRun gm)) < capturedScore gm
              then Some \<lparr>frames = currentRun gm, ghost_totalScore = capturedScore gm\<rparr>
              else ghostRun gm)"
  using assms by (cases "ghostRun gm") (simp_all add: ghostLogic_def Let_def)

lemma ghostLogic_score:
  assumes "currentRun gm \<noteq> []"
  shows "map_option ghost_totalScore (ghostLogic gm)
           = Some (case ghostRun gm of None \<Rightarrow> capturedScore gm
                   | Some gh \<Rightarrow> max (ghost_totalScore gh) (capturedScore gm))"
  using assms by (cases "ghostRun gm") (simp_all add: ghostLogic_def Let_def max_def)

lemma checkClippingZone_no_image:
  "trackImage d = None \<Longrightarrow> checkClippingZone d cs tw th = 1"
  by (simp add: checkClippingZone_def)

lemma handleClear_fields:
  "currentRun (handleClear md z w h gm) = []"
  "replayData (handleClear md z w h gm) = []"
  "driftSystem (handleClear md z w h gm) = map_option resetScore (driftSystem gm)"
  by (simp_all add: handleClear_def Let_def)

lemma resetScore_fields:
  "totalScore (scoring (resetScore sys)) = 0"
  "\<not> isDrifting (scoring (resetScore sys))"
  "config (scoring (resetScore sys)) = config (scoring sys)"
  "detector (resetScore sys) = detector sys"
  "hasLastState (resetScore sys) = hasLastState sys"
  by (simp_all add: resetScore_def resetTotal_def)

lemma capturedScore_after_reset: "capturedScore (handleClear md z w h gm) = 0"
  by (cases "driftSystem gm")
     (simp_all add: capturedScore_def handleClear_fields(3) resetScore_fields(1))

text \<open>What a run of the drift system banks, on a system without track image, with the
  default configuration and no drift under way.\<close>

lemma run_system_fields:
  assumes "trackImage (detector sys) = None"
      and "config (scoring sys) = config (new_DriftScoring empty_partial)"
      and "\<not> isDrifting (scoring sys)"
  shows "hasLastState (run_system dt sys)"
    and "totalScore (scoring (run_system dt sys))
           = totalScore (scoring sys) + of_int \<lfloor>500 * dt\<rfloor>"
    and "\<not> isDrifting (scoring (run_system dt sys))"
    and "config (scoring (run_system dt sys)) = config (new_DriftScoring empty_partial)"
    and "trackImage (detector (run_system dt sys)) = None"
proof -
  let ?d1 = "update (scoring sys) drift_car 1 dt"
  note u = update_drift_car [OF assms(2,3), of dt]
  have c1: "config ?d1 = config (new_DriftScoring empty_partial)"
    using u(5) assms(2) by simp
  have t1: "comboTimer ?d1 \<le> 3000" using u(4) by simp
  note b = update_straight_banks [OF c1 u(1) t1]
  have sc: "scoring (run_system dt sys) = update ?d1 straight_car 1 3"
    by (simp add: run_system_def system_update_def Let_def
        checkClippingZone_no_image [OF assms(1)])
  show "hasLastState (run_system dt sys)" by (simp add: run_system_def)
  show "totalScore (scoring (run_system dt sys))
           = totalScore (scoring sys) + of_int \<lfloor>500 * dt\<rfloor>"
    unfolding sc using b(3) u(2,3) by simp
  show "\<not> isDrifting (scoring (run_system dt sys))" unfolding sc by (rule b(1))
  show "config (scoring (run_system dt sys)) = config (new_DriftScoring empty_partial)"
    unfolding sc using b(4) c1 by simp
  show "trackImage (detector (run_system dt sys)) = None"
    using assms(1) by (simp add: run_system_def system_update_def Let_def)
qed

lemma push_bounded_nonempty: "push_bounded x buf \<noteq> []"
  by (cases buf) (simp_all add: push_bounded_def Let_def REPLAY_MAX_FRAMES_def)

text \<open>A live tick records a frame, keeps the stored ghost, and leaves a drift system
  that is present updated, with \<open>_lastState\<close> set.\<close>

lemma liveTick_run:
  "currentRun (liveTick t gm) \<noteq> []"
  "ghostRun (liveTick t gm) = ghostRun gm"
  "driftSystem gm = Some sys \<Longrightarrow>
   driftSystem (liveTick t gm)
     = Some ((system_update sys (car (liveTick t gm)) (worldWidth t) (worldHeight t) (1 / FPS))
               \<lparr>hasLastState := True\<rparr>)"
  by (simp_all add: liveTick_def Let_def push_bounded_nonempty)

lemma scored_run_fields:
  "currentRun (scored_run dt gm) \<noteq> []"
  "ghostRun (scored_run dt gm) = ghostRun gm"
  "driftSystem (scored_run dt gm) = map_option (run_system dt) (driftSystem gm)"
  by (simp_all add: scored_run_def)

text \<open>C8: a reset of a run that recorded at least one frame replaces the stored ghost run
  by the current run (its frames, with the score captured from the scoring machine)
  exactly when none is stored or the captured score is strictly greater than the stored
  one, and otherwise keeps the stored run. The reset also empties the run's buffers and
  zeroes the scoring total, so the score captured at the next reset is what the next run
  banked. Hence for two runs in a row, starting with no ghost stored, the second run
  banking \<open>b\<close> on top of the reset total, the stored score after the second reset is the
  larger of the first run's captured score and \<open>b\<close>: 150 after 100 then 150, and 150
  after 150 then 100.\<close>

theorem ghost_replacement:
  assumes "currentRun gm \<noteq> []"
  shows "ghostRun (handleClear md z w h gm)
           = (if ghostRun gm = None \<or> ghost_totalScore (the (ghostRun gm)) < capturedScore gm
              then Some \<lparr>frames = currentRun gm, ghost_totalScore = capturedScore gm\<rparr>
              else ghostRun gm) \<and>
         currentRun (handleClear md z w h gm) = [] \<and>
         capturedScore (handleClear md z w h gm) = 0 \<and>
         (\<forall>s. driftSystem gm = Some s \<longrightarrow>
              driftSystem (handleClear md z w h gm) = Some (resetScore s) \<and>
              totalScore (scoring (resetScore s)) = 0) \<and>
         (\<forall>gm2 md2 z2 w2 h2 s0 s2 b.
            ghostRun gm = None \<and>
            driftSystem (handleClear md z w h gm) = Some s0 \<and>
            currentRun gm2 \<noteq> [] \<and>
            ghostRun gm2 = ghostRun (handleClear md z w h gm) \<and>
            driftSystem gm2 = Some s2 \<and> hasLastState s2 \<and>
            totalScore (scoring s2) = totalScore (scoring s0) + b \<longrightarrow>
            map_option ghost_totalScore (ghostRun (handleClear md2 z2 w2 h2 gm2))
              = Some (max (capturedScore gm) b))"
proof -
  have first: "ghostRun (handleClear md z w h gm)
           = (if ghostRun gm = None \<or> ghost_totalScore (the (ghostRun gm)) < capturedScore gm
              then Some \<lparr>frames = currentRun gm, ghost_totalScore = capturedScore gm\<rparr>
              else ghostRun gm)"
    using ghostLogic_replace [OF assms] by (simp only: ghostRun_handleClear)
  have reset: "driftSystem (handleClear md z w h gm) = Some (resetScore s) \<and>
               totalScore (scoring (resetScore s)) = 0"
    if "driftSystem gm = Some s" for s
    using that by (simp add: handleClear_fields(3) resetScore_fields(1))
  have second: "map_option ghost_totalScore (ghostRun (handleClear md2 z2 w2 h2 gm2))
                  = Some (max (capturedScore gm) b)"
    if n: "ghostRun gm = None"
      and s0: "driftSystem (handleClear md z w h gm) = Some s0"
      and r: "currentRun gm2 \<noteq> []"
      and k: "ghostRun gm2 = ghostRun (handleClear md z w h gm)"
      and s2: "driftSystem gm2 = Some s2" "hasLastState s2"
      and t: "totalScore (scoring s2) = totalScore (scoring s0) + b"
    for gm2 md2 z2 w2 h2 s0 s2 b
  proof -
    obtain s where s: "driftSystem gm = Some s" "s0 = resetScore s"
      using s0 by (auto simp: handleClear_fields(3))
    have "totalScore (scoring s0) = 0" by (simp add: s(2) resetScore_fields(1))
    then have c: "capturedScore gm2 = b" using s2 t by (simp add: capturedScore_def)
    have "ghostRun gm2 = Some \<lparr>frames = currentRun gm, ghost_totalScore = capturedScore gm\<rparr>"
      using first n k by simp
    then show ?thesis
      using ghostLogic_score [OF r] c by (simp add: ghostRun_handleClear)
  qed
  show ?thesis
    using first reset second handleClear_fields(1) [of md z w h gm]
          capturedScore_after_reset [of md z w h gm]
    by blast
qed

theorem ghost_replacement_witness:
  "capturedScore (scored_run (1 / 5) fresh_game) = 100 \<and>
   capturedScore (scored_run (3 / 10) (handleClear None 1 390 800 (scored_run (1 / 5) fresh_game)))
     = 150 \<and>
   map_option ghost_totalScore
     (ghostRun (handleClear None 1 390 800
        (scored_run (3 / 10) (handleClear None 1 390 800 (scored_run (1 / 5) fresh_game)))))
     = Some 150 \<and>
   capturedScore (scored_run (1 / 5) (handleClear None 1 390 800 (scored_run (3 / 10) fresh_game)))
     = 100 \<and>
   map_option ghost_totalScore
     (ghostRun (handleClear None 1 390 800
        (scored_run (1 / 5) (handleClear None 1 390 800 (scored_run (3 / 10) fresh_game)))))
     = Some 150"
proof -
  let ?sys = "createDriftSystem None"
  have f: "driftSystem fresh_game = Some ?sys" "ghostRun fresh_game = None"
    by (simp_all add: fresh_game_def new_Game_def)
  have sys: "trackImage (detector ?sys) = None"
            "config (scoring ?sys) = config (new_DriftScoring empty_partial)"
            "\<not> isDrifting (scoring ?sys)" "totalScore (scoring ?sys) = 0"
    by (simp_all add: createDriftSystem_def new_ClippingZoneDetector_def new_DriftScoring_def)
  have key: "capturedScore (scored_run dta fresh_game) = of_int \<lfloor>500 * dta\<rfloor> \<and>
             capturedScore (scored_run dtb (handleClear None 1 390 800 (scored_run dta fresh_game)))
               = of_int \<lfloor>500 * dtb\<rfloor> \<and>
             map_option ghost_totalScore
               (ghostRun (handleClear None 1 390 800
                  (scored_run dtb (handleClear None 1 390 800 (scored_run dta fresh_game)))))
               = Some (max (of_int \<lfloor>500 * dta\<rfloor>) (of_int \<lfloor>500 * dtb\<rfloor>))"
    for dta dtb :: real
  proof -
    let ?ga = "scored_run dta fresh_game"
    let ?sa = "run_system dta ?sys"
    let ?ha = "handleClear None 1 390 800 ?ga"
    let ?s0 = "resetScore ?sa"
    let ?gb = "scored_run dtb ?ha"
    let ?sb = "run_system dtb ?s0"
    note a = run_system_fields [OF sys(1,2,3), of dta]
    have ga: "currentRun ?ga \<noteq> []" "ghostRun ?ga = None" "driftSystem ?ga = Some ?sa"
      by (simp_all add: scored_run_fields f)
    have ca: "capturedScore ?ga = of_int \<lfloor>500 * dta\<rfloor>"
      using a(1,2) by (simp add: capturedScore_def ga(3) sys(4))
    have ha: "driftSystem ?ha = Some ?s0"
      by (simp add: handleClear_fields(3) ga(3))
    have s0: "trackImage (detector ?s0) = None"
             "config (scoring ?s0) = config (new_DriftScoring empty_partial)"
             "\<not> isDrifting (scoring ?s0)"
      using a(4,5) by (simp_all add: resetScore_fields)
    note b = run_system_fields [OF s0, of dtb]
    have gb: "currentRun ?gb \<noteq> []" "ghostRun ?gb = ghostRun ?ha" "driftSystem ?gb = Some ?sb"
      by (simp_all only: scored_run_fields ha option.map not_False_eq_True)
    have cb: "capturedScore ?gb = of_int \<lfloor>500 * dtb\<rfloor>"
      using b(1,2) by (simp add: capturedScore_def gb(3) resetScore_fields(1))
    note g = ghost_replacement [OF ga(1), where md = None and z = 1 and w = 390 and h = 800]
    from g have "ghostRun ?ga = None \<and> driftSystem ?ha = Some ?s0 \<and> currentRun ?gb \<noteq> [] \<and>
        ghostRun ?gb = ghostRun ?ha \<and> driftSystem ?gb = Some ?sb \<and> hasLastState ?sb \<and>
        totalScore (scoring ?sb) = totalScore (scoring ?s0) + of_int \<lfloor>500 * dtb\<rfloor> \<longrightarrow>
        map_option ghost_totalScore (ghostRun (handleClear None 1 390 800 ?gb))
          = Some (max (capturedScore ?ga) (of_int \<lfloor>500 * dtb\<rfloor>))"
      by blast
    then have "map_option ghost_totalScore (ghostRun (handleClear None 1 390 800 ?gb))
          = Some (max (capturedScore ?ga) (of_int \<lfloor>500 * dtb\<rfloor>))"
      using ga(2) ha gb b(1,2) by blast
    then show ?thesis using ca cb by simp
  qed
  have fl: "\<lfloor>500 * (1 / 5) :: real\<rfloor> = 100" "\<lfloor>500 * (3 / 10) :: real\<rfloor> = 150"
    by simp_all
  from key [of "1 / 5" "3 / 10"] key [of "3 / 10" "1 / 5"] show ?thesis
    unfolding fl by simp
qed

section \<open>The clipping-zone detector\<close>

lemma pixel_index_less:
  assumes "i < w" and "j < h"
  shows "(j * w + i) * 4 + 2 < 4 * w * (h::nat)"
proof -
  have "j * w + i < j * w + w" using assms(1) by simp
  also have "\<dots> = Suc j * w" by simp
  also have "\<dots> \<le> h * w" using assms(2) by (intro mult_le_mono1) simp
  finally have "j * w + i < h * w" .
  then have "(j * w + i) * 4 + 4 \<le> h * w * 4" by simp
  then show ?thesis by (simp add: mult.commute)
qed

lemma getPixel_loaded:
  assumes "trackImage d = Some img" and "imageData d = Some px"
      and "length px = 4 * img_width img * img_height img"
  shows "getPixel d x y =
           (if inBounds img (x, y)
            then (case pixelAt img px (x, y) of
                    (cr, cg, cb) \<Rightarrow> Some (Some cr, Some cg, Some cb))
            else None)"
proof (cases "inBounds img (x, y)")
  case False
  then show ?thesis
    using assms(1,2) by (auto simp: getPixel_def inBounds_def Let_def)
next
  case True
  then have b: "0 \<le> \<lfloor>x\<rfloor>" "0 \<le> \<lfloor>y\<rfloor>" "\<lfloor>x\<rfloor> < int (img_width img)"
               "\<lfloor>y\<rfloor> < int (img_height img)"
    by (simp_all add: inBounds_def)
  have i: "nat \<lfloor>x\<rfloor> < img_width img" using b(1,3) by linarith
  have j: "nat \<lfloor>y\<rfloor> < img_height img" using b(2,4) by linarith
  let ?k = "(nat \<lfloor>y\<rfloor> * img_width img + nat \<lfloor>x\<rfloor>) * 4"
  have "?k + 2 < length px"
    using pixel_index_less [OF i j] by (simp add: assms(3))
  then have k: "?k < length px" "?k + 1 < length px" "?k + 2 < length px" by simp_all
  have nb: "\<not> (\<lfloor>x\<rfloor> < 0 \<or> \<lfloor>y\<rfloor> < 0 \<or> int (img_width img) \<le> \<lfloor>x\<rfloor>
                \<or> int (img_height img) \<le> \<lfloor>y\<rfloor>)"
    using b by simp
  have "getPixel d x y = Some (array_get px ?k, array_get px (?k + 1), array_get px (?k + 2))"
    using nb by (simp add: getPixel_def assms(1,2) Let_def)
  then show ?thesis
    using True k by (simp add: array_get_def pixelAt_def Let_def mult.commute)
qed

lemma isClippingZoneColor_matches:
  "isClippingZoneColor d (Some cr, Some cg, Some cb) = matchesTarget (detectorConfig d) (cr, cg, cb)"
  by (simp add: isClippingZoneColor_def matchesTarget_def channel_ok_def)

lemma countHits_filter:
  assumes "trackImage d = Some img" and "imageData d = Some px"
      and "length px = 4 * img_width img * img_height img"
  shows "countHits d ps (clippingHits, totalChecks) =
           (clippingHits
              + length (filter (\<lambda>p. matchesTarget (detectorConfig d) (pixelAt img px p))
                          (filter (inBounds img) ps)),
            totalChecks + length (filter (inBounds img) ps))"
proof (induction ps arbitrary: clippingHits totalChecks)
  case Nil
  show ?case by simp
next
  case (Cons p ps)
  obtain x y where p: "p = (x, y)" by (cases p)
  show ?case
  proof (cases "inBounds img (x, y)")
    case False
    then show ?thesis
      by (simp add: p getPixel_loaded [OF assms] Cons.IH)
  next
    case True
    obtain cr cg cb where c: "pixelAt img px (x, y) = (cr, cg, cb)"
      by (cases "pixelAt img px (x, y)")
    show ?thesis
      using True by (simp add: p getPixel_loaded [OF assms] c isClippingZoneColor_matches Cons.IH)
  qed
qed

lemma checkPoints_silhouette:
  assumes "trackImage d = Some img" and "0 < img_width img" and "0 < img_height img"
  shows "checkPoints d img cs tw th = silhouettePoints img cs tw th"
  using assms
  by (simp add: checkPoints_def getCarCheckPoints_def offsets_def silhouettePoints_def
      rotateBy_def width_or_1_def height_or_1_def Let_def)

lemma clippingResult_empty_image:
  assumes "img_width img = 0 \<or> img_height img = 0"
  shows "clippingResult cfg img px pts = 1"
proof -
  have "\<not> inBounds img p" for p
    using assms by (auto simp: inBounds_def)
  then have "filter (inBounds img) pts = []" by simp
  then show ?thesis by (simp add: clippingResult_def)
qed

lemma checkClippingZone_loaded:
  assumes l: "trackImage d = Some img" "imageData d = Some px"
             "length px = 4 * img_width img * img_height img"
  shows "checkClippingZone d cs tw th
           = clippingResult (detectorConfig d) img px (silhouettePoints img cs tw th)"
proof -
  have c: "checkClippingZone d cs tw th
             = clippingResult (detectorConfig d) img px (checkPoints d img cs tw th)"
    by (simp add: checkClippingZone_def l(1,2) countHits_filter [OF l] clippingResult_def Let_def)
  show ?thesis
  proof (cases "img_width img = 0 \<or> img_height img = 0")
    case True
    then show ?thesis by (simp only: c clippingResult_empty_image)
  next
    case False
    then have "0 < img_width img" "0 < img_height img" by simp_all
    then show ?thesis by (simp only: c checkPoints_silhouette [OF l(1)])
  qed
qed

lemma length_silhouettePoints: "length (silhouettePoints img cs tw th) = 7"
  by (simp add: silhouettePoints_def Let_def)

lemma checkPoints_driftAngle:
  "checkPoints d img (cs\<lparr>driftAngle := a\<rparr>) tw th = checkPoints d img cs tw th"
  by (simp add: checkPoints_def)

lemma checkClippingZone_driftAngle:
  "checkClippingZone d (cs\<lparr>driftAngle := a\<rparr>) tw th = checkClippingZone d cs tw th"
  unfolding checkClippingZone_def checkPoints_driftAngle ..

text \<open>C9: \<open>checkClippingZone\<close> returns 1 whenever no track image (or no pixel data) is
  loaded. With an image loaded it samples 7 points: the car's position in image pixels
  plus, turned by the heading angle (the drift angle plays no part), the four corners and
  three edge midpoints of the car's rectangle. A point whose nearest pixel is outside the
  image counts neither as a hit nor as a check; the result is the configured bonus
  multiplier when there is an in-bounds point and at least 30% of the in-bounds points
  match the target colour within the tolerance on every channel, and 1 in every other
  case. A detector built without options has target white (255, 255, 255), tolerance 50
  and bonus 2.5. The world size is taken non-zero, so that the image coordinates the
  source computes are finite.\<close>

theorem checkClippingZone_result:
  assumes "trackWidth \<noteq> 0" and "trackHeight \<noteq> 0"
  shows "(trackImage d = None \<or> imageData d = None
            \<longrightarrow> checkClippingZone d carState trackWidth trackHeight = 1) \<and>
         (\<forall>img px. trackImage d = Some img \<and> imageData d = Some px \<and>
                    length px = 4 * img_width img * img_height img \<longrightarrow>
            checkClippingZone d carState trackWidth trackHeight
              = clippingResult (detectorConfig d) img px
                  (silhouettePoints img carState trackWidth trackHeight)) \<and>
         (\<forall>img. length (silhouettePoints img carState trackWidth trackHeight) = 7) \<and>
         (\<forall>a. checkClippingZone d (carState\<lparr>driftAngle := a\<rparr>) trackWidth trackHeight
                = checkClippingZone d carState trackWidth trackHeight) \<and>
         clippingColor (detectorConfig (new_ClippingZoneDetector empty_partial_clipping))
           = \<lparr>r = 255, g = 255, b = 255\<rparr> \<and>
         colorTolerance (detectorConfig (new_ClippingZoneDetector empty_partial_clipping)) = 50 \<and>
         pointMultiplier (detectorConfig (new_ClippingZoneDetector empty_partial_clipping)) = 25 / 10"
proof -
  have none: "checkClippingZone d carState trackWidth trackHeight = 1"
    if "trackImage d = None \<or> imageData d = None"
    using that by (auto simp: checkClippingZone_def split: option.splits)
  have dflt:
    "clippingColor (detectorConfig (new_ClippingZoneDetector empty_partial_clipping))
           = \<lparr>r = 255, g = 255, b = 255\<rparr>"
    "colorTolerance (detectorConfig (new_ClippingZoneDetector empty_partial_clipping)) = 50"
    "pointMultiplier (detectorConfig (new_ClippingZoneDetector empty_partial_clipping)) = 25 / 10"
    by (simp_all add: new_ClippingZoneDetector_def empty_partial_clipping_def or_default_def)
  show ?thesis
    using none dflt checkClippingZone_loaded length_silhouettePoints
          checkClippingZone_driftAngle
    by simp
qed

lemma spot_detectors_loaded:
  "trackImage two_spot_detector = Some square_10"
  "imageData two_spot_detector = Some two_spot_image"
  "trackImage one_spot_detector = Some square_10"
  "imageData one_spot_detector = Some one_spot_image"
  "detectorConfig two_spot_detector
     = \<lparr>clippingColor = \<lparr>r = 255, g = 255, b = 255\<rparr>, colorTolerance = 50,
        pointMultiplier = 25 / 10, detectionRadius = 20\<rparr>"
  "detectorConfig one_spot_detector = detectorConfig two_spot_detector"
  by (simp_all add: two_spot_detector_def one_spot_detector_def loadTrack_def
      new_ClippingZoneDetector_def empty_partial_clipping_def or_default_def)

lemma spot_image_lengths:
  "length two_spot_image = 4 * img_width square_10 * img_height square_10"
  "length one_spot_image = 4 * img_width square_10 * img_height square_10"
  by (simp_all add: two_spot_image_def one_spot_image_def square_10_def)

lemma silhouettePoints_edge_car:
  "silhouettePoints square_10 edge_car 10 10
     = [(13 / 2, 9 / 2), (13 / 2, 11 / 2), (13 / 2, 13 / 2), (21 / 2, 9 / 2), (21 / 2, 13 / 2),
        (17 / 2, 13 / 2), (17 / 2, 9 / 2)]"
  by (simp add: silhouettePoints_def rotateBy_def Let_def edge_car_def square_10_def new_Game_def)

lemma silhouettePoints_edge_car_ahead:
  "silhouettePoints square_10 edge_car_ahead 10 10
     = [(15 / 2, 15 / 2), (17 / 2, 15 / 2), (19 / 2, 15 / 2), (15 / 2, 7 / 2), (19 / 2, 7 / 2),
        (19 / 2, 11 / 2), (15 / 2, 11 / 2)]"
  by (simp add: silhouettePoints_def rotateBy_def Let_def edge_car_ahead_def edge_car_def
      square_10_def new_Game_def)

lemma clippingResult_spots:
  "length (filter (inBounds square_10)
     [(13 / 2, 9 / 2), (13 / 2, 11 / 2), (13 / 2, 13 / 2), (21 / 2, 9 / 2), (21 / 2, 13 / 2),
      (17 / 2, 13 / 2), (17 / 2, 9 / 2)]) = 5"
  "clippingResult (detectorConfig two_spot_detector) square_10 two_spot_image
     [(13 / 2, 9 / 2), (13 / 2, 11 / 2), (13 / 2, 13 / 2), (21 / 2, 9 / 2), (21 / 2, 13 / 2),
      (17 / 2, 13 / 2), (17 / 2, 9 / 2)] = 25 / 10"
  "clippingResult (detectorConfig two_spot_detector) square_10 one_spot_image
     [(13 / 2, 9 / 2), (13 / 2, 11 / 2), (13 / 2, 13 / 2), (21 / 2, 9 / 2), (21 / 2, 13 / 2),
      (17 / 2, 13 / 2), (17 / 2, 9 / 2)] = 1"
  "clippingResult (detectorConfig two_spot_detector) square_10 two_spot_image
     [(15 / 2, 15 / 2), (17 / 2, 15 / 2), (19 / 2, 15 / 2), (15 / 2, 7 / 2), (19 / 2, 7 / 2),
      (19 / 2, 11 / 2), (15 / 2, 11 / 2)] = 1"
proof -
  have fl: "\<lfloor>13 / 2 :: real\<rfloor> = 6" "\<lfloor>9 / 2 :: real\<rfloor> = 4" "\<lfloor>11 / 2 :: real\<rfloor> = 5"
           "\<lfloor>21 / 2 :: real\<rfloor> = 10" "\<lfloor>17 / 2 :: real\<rfloor> = 8" "\<lfloor>15 / 2 :: real\<rfloor> = 7"
           "\<lfloor>19 / 2 :: real\<rfloor> = 9" "\<lfloor>7 / 2 :: real\<rfloor> = 3"
    by (simp_all add: floor_eq_iff)
  show "length (filter (inBounds square_10)
     [(13 / 2, 9 / 2), (13 / 2, 11 / 2), (13 / 2, 13 / 2), (21 / 2, 9 / 2), (21 / 2, 13 / 2),
      (17 / 2, 13 / 2), (17 / 2, 9 / 2)]) = 5"
    by (simp add: inBounds_def square_10_def fl)
  show "clippingResult (detectorConfig two_spot_detector) square_10 two_spot_image
     [(13 / 2, 9 / 2), (13 / 2, 11 / 2), (13 / 2, 13 / 2), (21 / 2, 9 / 2), (21 / 2, 13 / 2),
      (17 / 2, 13 / 2), (17 / 2, 9 / 2)] = 25 / 10"
    by (simp add: clippingResult_def inBounds_def pixelAt_def matchesTarget_def Let_def
        spot_detectors_loaded(5) two_spot_image_def square_10_def fl)
  show "clippingResult (detectorConfig two_spot_detector) square_10 one_spot_image
     [(13 / 2, 9 / 2), (13 / 2, 11 / 2), (13 / 2, 13 / 2), (21 / 2, 9 / 2), (21 / 2, 13 / 2),
      (17 / 2, 13 / 2), (17 / 2, 9 / 2)] = 1"
    by (simp add: clippingResult_def inBounds_def pixelAt_def matchesTarget_def Let_def
        spot_detectors_loaded(5) one_spot_image_def square_10_def fl)
  show "clippingResult (detectorConfig two_spot_detector) square_10 two_spot_image
     [(15 / 2, 15 / 2), (17 / 2, 15 / 2), (19 / 2, 15 / 2), (15 / 2, 7 / 2), (19 / 2, 7 / 2),
      (19 / 2, 11 / 2), (15 / 2, 11 / 2)] = 1"
    by (simp add: clippingResult_def inBounds_def pixelAt_def matchesTarget_def Let_def
        spot_detectors_loaded(5) two_spot_image_def square_10_def fl)
qed

theorem checkClippingZone_result_witness:
  "silhouettePoints square_10 edge_car 10 10
     = [(13 / 2, 9 / 2), (13 / 2, 11 / 2), (13 / 2, 13 / 2), (21 / 2, 9 / 2), (21 / 2, 13 / 2),
        (17 / 2, 13 / 2), (17 / 2, 9 / 2)] \<and>
   length (filter (inBounds square_10) (silhouettePoints square_10 edge_car 10 10)) = 5 \<and>
   checkClippingZone two_spot_detector edge_car 10 10 = 25 / 10 \<and>
   checkClippingZone one_spot_detector edge_car 10 10 = 1 \<and>
   checkClippingZone two_spot_detector edge_car_ahead 10 10 = 1 \<and>
   checkClippingZone (new_ClippingZoneDetector empty_partial_clipping) edge_car 10 10 = 1"
proof -
  have nz: "(10::real) \<noteq> 0" by simp
  have two: "checkClippingZone two_spot_detector cs 10 10
               = clippingResult (detectorConfig two_spot_detector) square_10 two_spot_image
                   (silhouettePoints square_10 cs 10 10)" for cs
  proof -
    from checkClippingZone_result [OF nz nz, of two_spot_detector cs]
    have "trackImage two_spot_detector = Some square_10 \<and>
          imageData two_spot_detector = Some two_spot_image \<and>
          length two_spot_image = 4 * img_width square_10 * img_height square_10 \<longrightarrow>
          checkClippingZone two_spot_detector cs 10 10
            = clippingResult (detectorConfig two_spot_detector) square_10 two_spot_image
                (silhouettePoints square_10 cs 10 10)"
      by blast
    then show ?thesis
      using spot_detectors_loaded(1,2) spot_image_lengths(1) by blast
  qed
  have one: "checkClippingZone one_spot_detector edge_car 10 10
               = clippingResult (detectorConfig one_spot_detector) square_10 one_spot_image
                   (silhouettePoints square_10 edge_car 10 10)"
  proof -
    from checkClippingZone_result [OF nz nz, of one_spot_detector edge_car]
    have "trackImage one_spot_detector = Some square_10 \<and>
          imageData one_spot_detector = Some one_spot_image \<and>
          length one_spot_image = 4 * img_width square_10 * img_height square_10 \<longrightarrow>
          checkClippingZone one_spot_detector edge_car 10 10
            = clippingResult (detectorConfig one_spot_detector) square_10 one_spot_image
                (silhouettePoints square_10 edge_car 10 10)"
      by blast
    then show ?thesis
      using spot_detectors_loaded(3,4) spot_image_lengths(2) by blast
  qed
  have a: "checkClippingZone two_spot_detector edge_car 10 10 = 25 / 10"
    unfolding two silhouettePoints_edge_car by (rule clippingResult_spots(2))
  have b: "checkClippingZone one_spot_detector edge_car 10 10 = 1"
    unfolding one silhouettePoints_edge_car spot_detectors_loaded(6)
    by (rule clippingResult_spots(3))
  have c: "checkClippingZone two_spot_detector edge_car_ahead 10 10 = 1"
    unfolding two silhouettePoints_edge_car_ahead by (rule clippingResult_spots(4))
  have "trackImage (new_ClippingZoneDetector empty_partial_clipping) = None"
    by (simp add: new_ClippingZoneDetector_def)
  then have o: "checkClippingZone (new_ClippingZoneDetector empty_partial_clipping) edge_car 10 10 = 1"
    using checkClippingZone_result [OF nz nz,
        of "new_ClippingZoneDetector empty_partial_clipping" edge_car]
    by blast
  have n: "length (filter (inBounds square_10) (silhouettePoints square_10 edge_car 10 10)) = 5"
    unfolding silhouettePoints_edge_car by (rule clippingResult_spots(1))
  show ?thesis using silhouettePoints_edge_car n a b c o by blast
qed

section \<open>Frame of \<open>resetTotal\<close>\<close>

text \<open>C10: \<open>resetTotal\<close> zeroes \<open>totalScore\<close>, \<open>currentScore\<close>, \<open>combo\<close> and the drifting flag
  (and the recorded direction); it leaves \<open>multiplier\<close>, \<open>duration\<close>, \<open>isInClippingZone\<close> and
  the private combo timer as they were.\<close>

theorem resetTotal_frame:
  "multiplier (resetTotal d) = multiplier d \<and> duration (resetTotal d) = duration d \<and>
   isInClippingZone (resetTotal d) = isInClippingZone d \<and>
   comboTimer (resetTotal d) = comboTimer d \<and> config (resetTotal d) = config d \<and>
   totalScore (resetTotal d) = 0 \<and> currentScore (resetTotal d) = 0 \<and>
   combo (resetTotal d) = 0 \<and> \<not> isDrifting (resetTotal d) \<and> lastDriftDir (resetTotal d) = 0"
  by (simp add: resetTotal_def)

end
